theory Spec2Isabelle
  imports Complex_Main
begin

section \<open>Data model of \<open>gameServer/src/gameplay/Player.js\<close>\<close>

text \<open>
  A \<open>Vec2\<close> of the source carries the fields \<open>x\<close> and \<open>y\<close>; they are named \<open>vx\<close> and
  \<open>vy\<close> here. Grid coordinates are integers. A \<open>Rect\<close> of the source carries \<open>min\<close> and
  \<open>max\<close>, named \<open>rmin\<close> and \<open>rmax\<close> here.
\<close>

datatype vec2 = Vec2 (vx: int) (vy: int)

datatype rect = Rect (rmin: vec2) (rmax: vec2)

datatype direction = Right | Down | Left | Up | Paused

datatype death_type = DT_player | DT_area_bounds | DT_self

record death_state =
  dieTime :: real
  dtype :: death_type

text \<open>
  The private fields of the class \<open>Player\<close>. The field \<open>#id\<close> is named \<open>pid\<close>. A
  \<open>MovementQueueItem\<close> is the pair of its direction and its desired position.
\<close>

record player =
  pid :: int
  skinId :: int
  currentTileType :: int
  currentPosition :: vec2
  lastEdgeChunkSendX :: int
  lastEdgeChunkSendY :: int
  nextTileProgress :: real
  currentDirection :: direction
  trailVertices :: "vec2 list"
  trailBounds :: rect
  movementQueue :: "(direction \<times> vec2) list"
  lastDeathState :: "death_state option"
  permanentlyDead :: bool
  permanentlyDieTime :: real
  allMyTilesCleared :: bool

text \<open>The field initialisers of the class, for a player created with the given id.\<close>

definition newPlayer :: "int \<Rightarrow> player" where
  "newPlayer i =
     \<lparr> pid = i, skinId = 2, currentTileType = 0, currentPosition = Vec2 20 20,
       lastEdgeChunkSendX = 20, lastEdgeChunkSendY = 20, nextTileProgress = 0,
       currentDirection = Up, trailVertices = [], trailBounds = Rect (Vec2 0 0) (Vec2 0 0),
       movementQueue = [], lastDeathState = None, permanentlyDead = False,
       permanentlyDieTime = 0, allMyTilesCleared = False \<rparr>"

definition isGeneratingTrail :: "player \<Rightarrow> bool" where
  "isGeneratingTrail p = (length (trailVertices p) > 0)"

definition dead :: "player \<Rightarrow> bool" where
  "dead p = (lastDeathState p \<noteq> None)"

text \<open>
  What the player does to its collaborators (the game, its connection and the arena), in the
  order of the calls. A broadcast that hands the player over records the fields the claims
  read from it at the time of the call.
\<close>

datatype event =
    BroadcastPlayerState nat vec2 direction
  | BroadcastPlayerTrail nat "vec2 list"
  | BroadcastPlayerDeath nat bool
  | BroadcastHitLineAnimation nat nat
  | SendChunk nat rect
  | SendGameOver nat death_type
  | ConnectionClose nat
  | FillPlayerTrail "vec2 list" int
  | UpdateCapturedArea int
  | ClearAllPlayerTiles int

text \<open>
  Players are objects compared by reference (\<open>otherPlayer == this\<close>): the game is a store
  from references to players, with the list of the players taking part, the log of the
  calls made so far, the arena, and the time source. Every call of \<open>performance.now()\<close>
  takes the next reading of \<open>clock\<close>.
\<close>

record 'a game =
  heap :: "nat \<Rightarrow> player"
  members :: "nat list"
  events :: "event list"
  arena :: 'a
  clock :: "nat \<Rightarrow> real"
  reads :: nat

text \<open>
  The constants of \<open>config.js\<close>, the function \<open>checkTrailSegment\<close> of \<open>util/util.js\<close> and
  the arena's methods are not part of the file; they are parameters.
\<close>

record 'a env =
  SKINS_COUNT :: int
  PLAYER_TRAVEL_SPEED :: real
  VIEWPORT_EDGE_CHUNK_SIZE :: int
  MIN_TILES_VIEWPORT_RECT_SIZE :: int
  checkTrailSegment :: "vec2 \<Rightarrow> vec2 \<Rightarrow> vec2 \<Rightarrow> bool"
  arena_width :: "'a \<Rightarrow> int"
  arena_height :: "'a \<Rightarrow> int"
  getTileValue :: "'a \<Rightarrow> vec2 \<Rightarrow> int"
  fillPlayerTrail :: "vec2 list \<Rightarrow> int \<Rightarrow> 'a \<Rightarrow> 'a"
  updateCapturedArea :: "int \<Rightarrow> 'a \<Rightarrow> 'a"
  clearAllPlayerTiles :: "int \<Rightarrow> 'a \<Rightarrow> 'a"

datatype error = AssertionFailed string

definition emit :: "event \<Rightarrow> 'a game \<Rightarrow> 'a game" where
  "emit e g = g\<lparr>events := events g @ [e]\<rparr>"

definition update_player :: "nat \<Rightarrow> (player \<Rightarrow> player) \<Rightarrow> 'a game \<Rightarrow> 'a game" where
  "update_player r f g = g\<lparr>heap := (heap g)(r := f (heap g r))\<rparr>"

definition performance_now :: "'a game \<Rightarrow> real \<times> 'a game" where
  "performance_now g = (clock g (reads g), g\<lparr>reads := Suc (reads g)\<rparr>)"

section \<open>Skin disambiguation\<close>

text \<open>
  The remainder operator of JavaScript on integers: the result has the sign of the
  dividend, and a zero divisor gives \<open>NaN\<close>, which is \<open>None\<close> here.
\<close>

definition js_rem :: "int \<Rightarrow> int \<Rightarrow> int option" where
  "js_rem a b = (if b = 0 then None else Some (sgn a * (\<bar>a\<bar> mod \<bar>b\<bar>)))"

text \<open>
  \<open>skinIdForPlayer\<close>: \<open>None\<close> is \<open>NaN\<close>; a comparison with \<open>NaN\<close> is false and its
  increment is \<open>NaN\<close> again.
\<close>

definition skinIdForPlayer :: "'a env \<Rightarrow> 'b game \<Rightarrow> nat \<Rightarrow> nat \<Rightarrow> int option" where
  "skinIdForPlayer E g this otherPlayer =
     (if skinId (heap g this) \<noteq> skinId (heap g otherPlayer) \<or> otherPlayer = this
      then Some (skinId (heap g this))
      else (case js_rem (pid (heap g this)) (SKINS_COUNT E - 1) of
              None \<Rightarrow> None
            | Some fakeSkinId \<Rightarrow>
                if fakeSkinId \<ge> skinId (heap g otherPlayer) - 1
                then Some (fakeSkinId + 1) else Some fakeSkinId))"

section \<open>Movement validation\<close>

definition checkNextMoveValidity :: "player \<Rightarrow> vec2 \<Rightarrow> direction \<Rightarrow> bool" where
  "checkNextMoveValidity p desiredPosition newDirection =
     (if (currentDirection p = Right \<or> currentDirection p = Left) \<and>
         (newDirection = Right \<or> newDirection = Left) then False
      else if (currentDirection p = Up \<or> currentDirection p = Down) \<and>
         (newDirection = Up \<or> newDirection = Down) then False
      else if currentDirection p = newDirection then False
      else if newDirection = Paused then True
      else if (currentDirection p = Left \<or> currentDirection p = Right) \<and>
         vy desiredPosition \<noteq> vy (currentPosition p) then False
      else if (currentDirection p = Up \<or> currentDirection p = Down) \<and>
         vx desiredPosition \<noteq> vx (currentPosition p) then False
      else True)"

definition horizontal :: "direction \<Rightarrow> bool" where
  "horizontal d = (d = Left \<or> d = Right)"

definition vertical :: "direction \<Rightarrow> bool" where
  "vertical d = (d = Up \<or> d = Down)"

section \<open>Draining the movement queue\<close>

text \<open>
  \<open>#drainMovementQueue\<close>: every iteration takes the first item off the queue, so the
  length of the queue is the measure of the loop.
\<close>

definition acceptMove :: "nat \<Rightarrow> direction \<times> vec2 \<Rightarrow> 'a game \<Rightarrow> 'a game" where
  "acceptMove this firstItem g =
     (let g1 = update_player this (\<lambda>p. p\<lparr>movementQueue := tl (movementQueue p)\<rparr>) g;
          g2 = update_player this (\<lambda>p. p\<lparr>currentPosition := snd firstItem\<rparr>) g1;
          g3 = (if isGeneratingTrail (heap g2 this)
                then update_player this
                       (\<lambda>p. p\<lparr>trailVertices := trailVertices p @ [snd firstItem]\<rparr>) g2
                else g2);
          g4 = update_player this (\<lambda>p. p\<lparr>currentDirection := fst firstItem\<rparr>) g3
      in emit (BroadcastPlayerState this (currentPosition (heap g4 this))
                 (currentDirection (heap g4 this))) g4)"

function drainMovementQueue :: "nat \<Rightarrow> 'a game \<Rightarrow> 'a game" where
  "drainMovementQueue this g =
     (if length (movementQueue (heap g this)) \<le> 0 then g
      else let firstItem = hd (movementQueue (heap g this));
               valid = checkNextMoveValidity (heap g this) (snd firstItem) (fst firstItem)
           in if \<not> valid
              then drainMovementQueue this
                     (update_player this (\<lambda>p. p\<lparr>movementQueue := tl (movementQueue p)\<rparr>) g)
              else drainMovementQueue this (acceptMove this firstItem g))"
  by pat_completeness auto
termination
  by (relation "measure (\<lambda>(this, g). length (movementQueue (heap g this)))")
     (auto simp: update_player_def acceptMove_def emit_def Let_def)

declare drainMovementQueue.simps [simp del]

definition clientPosUpdateRequested :: "direction \<Rightarrow> vec2 \<Rightarrow> nat \<Rightarrow> 'a game \<Rightarrow> 'a game" where
  "clientPosUpdateRequested direction desiredPosition this g =
     drainMovementQueue this
       (update_player this
          (\<lambda>p. p\<lparr>movementQueue := movementQueue p @ [(direction, desiredPosition)]\<rparr>) g)"

section \<open>Death\<close>

definition die :: "death_type \<Rightarrow> bool \<Rightarrow> nat \<Rightarrow> 'a game \<Rightarrow> 'a game" where
  "die deathType sendPosition this g =
     (if lastDeathState (heap g this) \<noteq> None then g
      else let (t, g1) = performance_now g;
               g2 = update_player this
                      (\<lambda>p. p\<lparr>lastDeathState := Some \<lparr>dieTime = t, dtype = deathType\<rparr>\<rparr>) g1
           in emit (BroadcastPlayerDeath this sendPosition) g2)"

definition clearAllMyTiles :: "'a env \<Rightarrow> nat \<Rightarrow> 'a game \<Rightarrow> 'a game" where
  "clearAllMyTiles E this g =
     (if allMyTilesCleared (heap g this) then g
      else let g1 = update_player this (\<lambda>p. p\<lparr>allMyTilesCleared := True\<rparr>) g;
               g2 = g1\<lparr>arena := clearAllPlayerTiles E (pid (heap g1 this)) (arena g1)\<rparr>
           in emit (ClearAllPlayerTiles (pid (heap g1 this))) g2)"

text \<open>
  A \<open>throw\<close> leaves the fields as they are at that point: the left summand carries the
  error and the state reached.
\<close>

definition permanentlyDie :: "'a env \<Rightarrow> nat \<Rightarrow> 'a game \<Rightarrow> (error \<times> 'a game) + 'a game" where
  "permanentlyDie E this g =
     (if permanentlyDead (heap g this) then Inr g
      else let g1 = update_player this (\<lambda>p. p\<lparr>permanentlyDead := True\<rparr>) g;
               (t, g2) = performance_now g1;
               g3 = update_player this (\<lambda>p. p\<lparr>permanentlyDieTime := t\<rparr>) g2;
               g4 = clearAllMyTiles E this g3
           in case lastDeathState (heap g4 this) of
                None \<Rightarrow> Inl (AssertionFailed ''Assertion failed, no death state is set'', g4)
              | Some ds \<Rightarrow> Inr (emit (SendGameOver this (dtype ds)) g4))"

definition removedFromGame :: "'a env \<Rightarrow> nat \<Rightarrow> 'a game \<Rightarrow> 'a game" where
  "removedFromGame E this g = clearAllMyTiles E this g"

section \<open>Trail hit tests\<close>

definition pointIsInTrailBounds :: "player \<Rightarrow> vec2 \<Rightarrow> bool" where
  "pointIsInTrailBounds p point =
     (vx point \<ge> vx (rmin (trailBounds p)) \<and> vy point \<ge> vy (rmin (trailBounds p)) \<and>
      vx point \<le> vx (rmax (trailBounds p)) \<and> vy point \<le> vy (rmax (trailBounds p)))"

text \<open>The \<open>for\<close> loop of \<open>pointIsInTrail\<close> over the pairs of consecutive vertices.\<close>

fun trailSegmentsHit :: "(vec2 \<Rightarrow> vec2 \<Rightarrow> vec2 \<Rightarrow> bool) \<Rightarrow> vec2 \<Rightarrow> vec2 list \<Rightarrow> bool" where
  "trailSegmentsHit cts point (start # end # rest) =
     (if cts point start end then True else trailSegmentsHit cts point (end # rest))"
| "trailSegmentsHit cts point vs = False"

text \<open>\<open>Array.prototype.at(-1)\<close>: \<open>undefined\<close> on the empty array.\<close>

definition at_last :: "'b list \<Rightarrow> 'b option" where
  "at_last xs = (if xs = [] then None else Some (last xs))"

definition pointIsInTrail :: "'a env \<Rightarrow> player \<Rightarrow> vec2 \<Rightarrow> bool \<Rightarrow> error + bool" where
  "pointIsInTrail E p point includeLastSegment =
     (if isGeneratingTrail p then
        (if trailSegmentsHit (checkTrailSegment E) point (trailVertices p) then Inr True
         else if includeLastSegment then
           (case at_last (trailVertices p) of
              None \<Rightarrow> Inl (AssertionFailed ''Assertion failed, no trail exists'')
            | Some lastv \<Rightarrow>
                if checkTrailSegment E point lastv (currentPosition p) then Inr True
                else Inr False)
         else Inr False)
      else if includeLastSegment
        then Inr (vx point = vx (currentPosition p) \<and> vy point = vy (currentPosition p))
        else Inr False)"

text \<open>
  Modelled from the spec: \<open>Game.getOverlappingTrailBoundsPlayers\<close> is defined in
  \<open>Game.js\<close>, which is not among the sources. The spec has it return every player of the
  game, the caller included, whose \<open>trailBounds\<close> rectangle contains the position; the
  players are taken in the order of \<open>members\<close>.
\<close>

definition getOverlappingTrailBoundsPlayers :: "'a game \<Rightarrow> vec2 \<Rightarrow> nat list" where
  "getOverlappingTrailBoundsPlayers g pos =
     filter (\<lambda>r. pointIsInTrailBounds (heap g r) pos) (members g)"

section \<open>Viewport edge chunks\<close>

record chunk =
  cx :: int
  cy :: int
  cw :: int
  ch :: int

definition sendRequiredEdgeChunks :: "'a env \<Rightarrow> nat \<Rightarrow> 'a game \<Rightarrow> 'a game" where
  "sendRequiredEdgeChunks E this g =
     (let chunkSize = VIEWPORT_EDGE_CHUNK_SIZE E;
          viewportSize = MIN_TILES_VIEWPORT_RECT_SIZE E;
          p0 = heap g this;
          pos = currentPosition p0;
          (chunk1, p1) =
            (if vx pos \<ge> lastEdgeChunkSendX p0 + chunkSize
             then (Some \<lparr>cx = vx pos + viewportSize,
                         cy = lastEdgeChunkSendY p0 - viewportSize - chunkSize,
                         cw = chunkSize, ch = (viewportSize + chunkSize) * 2\<rparr>,
                   p0\<lparr>lastEdgeChunkSendX := vx pos\<rparr>)
             else (None, p0));
          (chunk2, p2) =
            (if vx pos \<le> lastEdgeChunkSendX p1 - chunkSize
             then (Some \<lparr>cx = vx pos - viewportSize - chunkSize,
                         cy = lastEdgeChunkSendY p1 - viewportSize - chunkSize,
                         cw = chunkSize, ch = (viewportSize + chunkSize) * 2\<rparr>,
                   p1\<lparr>lastEdgeChunkSendX := vx pos\<rparr>)
             else (chunk1, p1));
          (chunk3, p3) =
            (if vy pos \<ge> lastEdgeChunkSendY p2 + chunkSize
             then (Some \<lparr>cx = lastEdgeChunkSendX p2 - viewportSize - chunkSize,
                         cy = vy pos + viewportSize,
                         cw = (viewportSize + chunkSize) * 2, ch = chunkSize\<rparr>,
                   p2\<lparr>lastEdgeChunkSendY := vy pos\<rparr>)
             else (chunk2, p2));
          (chunk4, p4) =
            (if vy pos \<le> lastEdgeChunkSendY p3 - chunkSize
             then (Some \<lparr>cx = lastEdgeChunkSendX p3 - viewportSize - chunkSize,
                         cy = vy pos - viewportSize - chunkSize,
                         cw = (viewportSize + chunkSize) * 2, ch = chunkSize\<rparr>,
                   p3\<lparr>lastEdgeChunkSendY := vy pos\<rparr>)
             else (chunk3, p3));
          g' = update_player this (\<lambda>_. p4) g
      in case chunk4 of
           None \<Rightarrow> g'
         | Some c \<Rightarrow>
             emit (SendChunk this (Rect (Vec2 (cx c) (cy c)) (Vec2 (cx c + cw c) (cy c + ch c)))) g')"

section \<open>A grid move\<close>

definition updateTrailBounds :: "nat \<Rightarrow> 'a game \<Rightarrow> 'a game" where
  "updateTrailBounds this g =
     (let p = heap g this; pos = currentPosition p; b = trailBounds p in
      if isGeneratingTrail p
      then update_player this
             (\<lambda>q. q\<lparr>trailBounds :=
                Rect (Vec2 (min (vx (rmin b)) (vx pos)) (min (vy (rmin b)) (vy pos)))
                     (Vec2 (max (vx (rmax b)) (vx pos)) (max (vy (rmax b)) (vy pos)))\<rparr>) g
      else update_player this (\<lambda>q. q\<lparr>trailBounds := Rect pos pos\<rparr>) g)"

definition checkAreaBounds :: "'a env \<Rightarrow> nat \<Rightarrow> 'a game \<Rightarrow> 'a game" where
  "checkAreaBounds E this g =
     (let pos = currentPosition (heap g this) in
      if vx pos \<le> 0 \<or> vy pos \<le> 0 \<or>
         vx pos \<ge> arena_width E (arena g) - 1 \<or> vy pos \<ge> arena_height E (arena g) - 1
      then die DT_area_bounds True this g
      else g)"

text \<open>The body of the \<open>for\<close> loop over the players returned by the game.\<close>

fun hitPlayers :: "'a env \<Rightarrow> nat \<Rightarrow> nat list \<Rightarrow> 'a game \<Rightarrow> (error \<times> 'a game) + 'a game" where
  "hitPlayers E this [] g = Inr g"
| "hitPlayers E this (player # rest) g =
     (let includeLastSegment = (player \<noteq> this) in
      case pointIsInTrail E (heap g player) (currentPosition (heap g this)) includeLastSegment of
        Inl e \<Rightarrow> Inl (e, g)
      | Inr hit \<Rightarrow>
          if hit then
            (let killedSelf = (player = this);
                 g1 = die (if killedSelf then DT_self else DT_player) killedSelf player g
             in hitPlayers E this rest (emit (BroadcastHitLineAnimation player this) g1))
          else hitPlayers E this rest g)"

definition currentPositionChanged :: "'a env \<Rightarrow> nat \<Rightarrow> 'a game \<Rightarrow> (error \<times> 'a game) + 'a game" where
  "currentPositionChanged E this g =
     (let g1 = updateTrailBounds this g;
          g2 = checkAreaBounds E this g1
      in case hitPlayers E this
                (getOverlappingTrailBoundsPlayers g2 (currentPosition (heap g2 this))) g2 of
           Inl e \<Rightarrow> Inl e
         | Inr g3 \<Rightarrow> Inr (sendRequiredEdgeChunks E this g3))"

definition closeTrail :: "'a env \<Rightarrow> nat \<Rightarrow> 'a game \<Rightarrow> (error \<times> 'a game) + 'a game" where
  "closeTrail E this g =
     (let g1 = update_player this
                 (\<lambda>p. p\<lparr>trailVertices := trailVertices p @ [currentPosition p]\<rparr>) g
      in if allMyTilesCleared (heap g1 this)
         then Inl (AssertionFailed
                ''Assertion failed, player tiles have already been removed from the arena.'', g1)
         else
           (let vs = trailVertices (heap g1 this); i = pid (heap g1 this);
                g2 = emit (FillPlayerTrail vs i) (g1\<lparr>arena := fillPlayerTrail E vs i (arena g1)\<rparr>);
                g3 = emit (UpdateCapturedArea i) (g2\<lparr>arena := updateCapturedArea E i (arena g2)\<rparr>);
                g4 = update_player this (\<lambda>p. p\<lparr>trailVertices := []\<rparr>) g3
            in Inr (emit (BroadcastPlayerTrail this (trailVertices (heap g4 this))) g4)))"

definition updateCurrentTile :: "'a env \<Rightarrow> nat \<Rightarrow> 'a game \<Rightarrow> (error \<times> 'a game) + 'a game" where
  "updateCurrentTile E this g =
     (let tileValue = getTileValue E (arena g) (currentPosition (heap g this)) in
      if currentTileType (heap g this) \<noteq> tileValue then
        (let g1 = (if tileValue \<noteq> pid (heap g this) \<and> \<not> isGeneratingTrail (heap g this)
                   then (let g' = update_player this
                                    (\<lambda>p. p\<lparr>trailVertices := trailVertices p @ [currentPosition p]\<rparr>) g
                         in emit (BroadcastPlayerTrail this (trailVertices (heap g' this))) g')
                   else g)
         in case (if tileValue = pid (heap g1 this) \<and> isGeneratingTrail (heap g1 this)
                  then closeTrail E this g1 else Inr g1) of
              Inl e \<Rightarrow> Inl e
            | Inr g2 \<Rightarrow> Inr (update_player this (\<lambda>p. p\<lparr>currentTileType := tileValue\<rparr>) g2))
      else Inr g)"

definition moveOne :: "direction \<Rightarrow> vec2 \<Rightarrow> vec2" where
  "moveOne d pos =
     (if d = Left then Vec2 (vx pos - 1) (vy pos)
      else if d = Right then Vec2 (vx pos + 1) (vy pos)
      else if d = Up then Vec2 (vx pos) (vy pos - 1)
      else if d = Down then Vec2 (vx pos) (vy pos + 1)
      else pos)"

text \<open>The body of the \<open>while\<close> loop of \<open>loop\<close>: one grid move.\<close>

definition gridMove :: "'a env \<Rightarrow> nat \<Rightarrow> 'a game \<Rightarrow> (error \<times> 'a game) + 'a game" where
  "gridMove E this g =
     (let g1 = update_player this (\<lambda>p. p\<lparr>nextTileProgress := nextTileProgress p - 1\<rparr>) g;
          g2 = update_player this
                 (\<lambda>p. p\<lparr>currentPosition := moveOne (currentDirection p) (currentPosition p)\<rparr>) g1
      in case currentPositionChanged E this g2 of
           Inl e \<Rightarrow> Inl e
         | Inr g3 \<Rightarrow> updateCurrentTile E this g3)"

section \<open>The tick\<close>

text \<open>
  The \<open>while\<close> loop of \<open>loop\<close> runs while \<open>#nextTileProgress\<close> exceeds 1 and takes 1
  off it in every iteration; nothing else in a grid move writes the field, which gives the
  measure of the loop.
\<close>

lemma heap_emit [simp]: "heap (emit e g) = heap g"
  and members_emit [simp]: "members (emit e g) = members g"
  and events_emit [simp]: "events (emit e g) = events g @ [e]"
  and arena_emit [simp]: "arena (emit e g) = arena g"
  and clock_emit [simp]: "clock (emit e g) = clock g"
  and reads_emit [simp]: "reads (emit e g) = reads g"
  by (simp_all add: emit_def)

lemma heap_update_player [simp]: "heap (update_player r f g) = (heap g)(r := f (heap g r))"
  and members_update_player [simp]: "members (update_player r f g) = members g"
  and events_update_player [simp]: "events (update_player r f g) = events g"
  and arena_update_player [simp]: "arena (update_player r f g) = arena g"
  and clock_update_player [simp]: "clock (update_player r f g) = clock g"
  and reads_update_player [simp]: "reads (update_player r f g) = reads g"
  by (simp_all add: update_player_def)

lemma heap_die:
  "heap (die ty sp r g) =
     (if lastDeathState (heap g r) \<noteq> None then heap g
      else (heap g)(r := (heap g r)\<lparr>lastDeathState :=
              Some \<lparr>dieTime = clock g (reads g), dtype = ty\<rparr>\<rparr>))"
  by (simp add: die_def performance_now_def)

lemma members_die [simp]: "members (die ty sp r g) = members g"
  and arena_die [simp]: "arena (die ty sp r g) = arena g"
  and clock_die [simp]: "clock (die ty sp r g) = clock g"
  by (simp_all add: die_def performance_now_def)

text \<open>Two games whose players differ in their death states at most.\<close>

definition same_but_death :: "'a game \<Rightarrow> 'a game \<Rightarrow> bool" where
  "same_but_death g g' =
     (members g' = members g \<and> arena g' = arena g \<and> clock g' = clock g \<and>
      (\<forall>r. heap g' r = (heap g r)\<lparr>lastDeathState := lastDeathState (heap g' r)\<rparr>))"

lemma same_but_death_refl: "same_but_death g g"
  by (simp add: same_but_death_def)

lemma same_but_death_trans:
  "same_but_death g g' \<Longrightarrow> same_but_death g' g'' \<Longrightarrow> same_but_death g g''"
  unfolding same_but_death_def
  by (metis (no_types, lifting) player.surjective player.update_convs(12))

lemma same_but_death_die: "same_but_death g (die ty sp r g)"
  by (simp add: same_but_death_def heap_die)

lemma same_but_death_emit: "same_but_death g g' \<Longrightarrow> same_but_death g (emit e g')"
  by (simp add: same_but_death_def)

lemma hitPlayers_same_but_death:
  "hitPlayers E this rs g = Inr g' \<Longrightarrow> same_but_death g g'"
proof (induction rs arbitrary: g)
  case Nil
  then show ?case by (simp add: same_but_death_refl)
next
  case (Cons r rs)
  show ?case
  proof (cases "pointIsInTrail E (heap g r) (currentPosition (heap g this)) (r \<noteq> this)")
    case (Inl e)
    with Cons.prems show ?thesis by simp
  next
    case (Inr hit)
    show ?thesis
    proof (cases hit)
      case True
      let ?g1 = "emit (BroadcastHitLineAnimation r this)
                   (die (if r = this then DT_self else DT_player) (r = this) r g)"
      from Cons.prems Inr True have "hitPlayers E this rs ?g1 = Inr g'"
        by (simp add: Let_def)
      then have "same_but_death ?g1 g'" by (rule Cons.IH)
      moreover have "same_but_death g ?g1"
        by (intro same_but_death_emit same_but_death_die)
      ultimately show ?thesis by (rule same_but_death_trans [rotated])
    next
      case False
      with Cons.prems Inr have "hitPlayers E this rs g = Inr g'" by simp
      then show ?thesis by (rule Cons.IH)
    qed
  qed
qed

lemma sendRequiredEdgeChunks_frame:
  "heap (sendRequiredEdgeChunks E this g) r =
     (heap g r)\<lparr>lastEdgeChunkSendX := lastEdgeChunkSendX (heap (sendRequiredEdgeChunks E this g) r),
                lastEdgeChunkSendY := lastEdgeChunkSendY (heap (sendRequiredEdgeChunks E this g) r)\<rparr>"
  by (simp add: sendRequiredEdgeChunks_def Let_def split: option.splits)

lemma sendRequiredEdgeChunks_other [simp]:
  "members (sendRequiredEdgeChunks E this g) = members g"
  "arena (sendRequiredEdgeChunks E this g) = arena g"
  "clock (sendRequiredEdgeChunks E this g) = clock g"
  "reads (sendRequiredEdgeChunks E this g) = reads g"
  by (simp_all add: sendRequiredEdgeChunks_def Let_def split: option.splits)

lemma nextTileProgress_sendRequiredEdgeChunks [simp]:
  "nextTileProgress (heap (sendRequiredEdgeChunks E this g) r) = nextTileProgress (heap g r)"
  by (subst sendRequiredEdgeChunks_frame) simp

lemma nextTileProgress_closeTrail:
  "closeTrail E this g = Inr g' \<Longrightarrow> nextTileProgress (heap g' r) = nextTileProgress (heap g r)"
  by (auto simp: closeTrail_def Let_def split: if_splits)

lemma nextTileProgress_updateCurrentTile:
  "updateCurrentTile E this g = Inr g' \<Longrightarrow> nextTileProgress (heap g' r) = nextTileProgress (heap g r)"
  by (auto simp: updateCurrentTile_def Let_def split: if_splits sum.splits
           dest!: nextTileProgress_closeTrail [where r = r])

lemma nextTileProgress_currentPositionChanged:
  assumes "currentPositionChanged E this g = Inr g'"
  shows "nextTileProgress (heap g' r) = nextTileProgress (heap g r)"
proof -
  let ?g2 = "checkAreaBounds E this (updateTrailBounds this g)"
  from assms obtain g3 where
    h: "hitPlayers E this (getOverlappingTrailBoundsPlayers ?g2 (currentPosition (heap ?g2 this))) ?g2 = Inr g3"
    and g': "g' = sendRequiredEdgeChunks E this g3"
    by (auto simp: currentPositionChanged_def Let_def split: sum.splits)
  from h have "same_but_death ?g2 g3" by (rule hitPlayers_same_but_death)
  then have "nextTileProgress (heap g3 r) = nextTileProgress (heap ?g2 r)"
    by (metis (no_types, lifting) same_but_death_def player.select_convs(7) player.surjective player.update_convs(12))
  also have "\<dots> = nextTileProgress (heap g r)"
    by (simp add: checkAreaBounds_def updateTrailBounds_def Let_def heap_die)
  finally show ?thesis by (simp add: g')
qed

lemma nextTileProgress_gridMove:
  assumes "gridMove E this g = Inr g'"
  shows "nextTileProgress (heap g' this) = nextTileProgress (heap g this) - 1"
  using assms
  by (auto simp: gridMove_def Let_def split: sum.splits
           dest!: nextTileProgress_currentPositionChanged [where r = this]
                  nextTileProgress_updateCurrentTile [where r = this])

function moveLoop :: "'a env \<Rightarrow> nat \<Rightarrow> 'a game \<Rightarrow> (error \<times> 'a game) + 'a game" where
  "moveLoop E this g =
     (if nextTileProgress (heap g this) > 1
      then (case gridMove E this g of Inl e \<Rightarrow> Inl e | Inr g' \<Rightarrow> moveLoop E this g')
      else Inr g)"
  by pat_completeness auto
termination
proof (relation "measure (\<lambda>(E, this, g). nat \<lceil>nextTileProgress (heap g this)\<rceil>)")
  show "wf (measure (\<lambda>(E, this, g). nat \<lceil>nextTileProgress (heap g this)\<rceil>))" by simp
next
  fix E :: "'a env" and this g g'
  assume "1 < nextTileProgress (heap g this)" and "gridMove E this g = Inr g'"
  then have "nextTileProgress (heap g' this) = nextTileProgress (heap g this) - 1"
    and "1 < nextTileProgress (heap g this)"
    by (simp_all add: nextTileProgress_gridMove)
  then show "((E, this, g'), (E, this, g)) \<in> measure (\<lambda>(E, this, g). nat \<lceil>nextTileProgress (heap g this)\<rceil>)"
    by simp
qed

declare moveLoop.simps [simp del]

text \<open>The two timers at the end of \<open>loop\<close>.\<close>

definition deathTimers :: "'a env \<Rightarrow> nat \<Rightarrow> 'a game \<Rightarrow> (error \<times> 'a game) + 'a game" where
  "deathTimers E this g =
     (case (case lastDeathState (heap g this) of
              None \<Rightarrow> Inr g
            | Some ds \<Rightarrow>
                (let (t, g1) = performance_now g in
                 if t - dieTime ds > 600 then permanentlyDie E this g1 else Inr g1)) of
        Inl e \<Rightarrow> Inl e
      | Inr g2 \<Rightarrow>
          if permanentlyDead (heap g2 this) then
            (let (t, g3) = performance_now g2 in
             if t - permanentlyDieTime (heap g3 this) > 5000
             then Inr (emit (ConnectionClose this) g3) else Inr g3)
          else Inr g2)"

text \<open>\<open>loop(now, dt)\<close>; the source does not read its parameter \<open>now\<close>.\<close>

definition loop :: "'a env \<Rightarrow> real \<Rightarrow> real \<Rightarrow> nat \<Rightarrow> 'a game \<Rightarrow> (error \<times> 'a game) + 'a game" where
  "loop E now dt this g =
     (case (if currentDirection (heap g this) \<noteq> Paused \<and> \<not> dead (heap g this)
            then moveLoop E this
                   (update_player this
                      (\<lambda>p. p\<lparr>nextTileProgress := nextTileProgress p + dt * PLAYER_TRAVEL_SPEED E\<rparr>) g)
            else Inr g) of
        Inl e \<Rightarrow> Inl e
      | Inr g1 \<Rightarrow> deathTimers E this g1)"

section \<open>Auxiliary notions for the statements\<close>

text \<open>The state a call leaves behind, whether it returned or threw.\<close>

definition state_of :: "(error \<times> 'a game) + 'a game \<Rightarrow> 'a game" where
  "state_of r = (case r of Inl (e, g) \<Rightarrow> g | Inr g \<Rightarrow> g)"

text \<open>
  The rectangle of each side, and the last of the sides whose threshold is crossed, in
  the order +X, -X, +Y, -Y of the source; \<open>lx\<close> is the value of \<open>#lastEdgeChunkSendX\<close>
  after the two tests on x.
\<close>

definition crossedXp :: "'a env \<Rightarrow> player \<Rightarrow> bool" where
  "crossedXp E p = (vx (currentPosition p) \<ge> lastEdgeChunkSendX p + VIEWPORT_EDGE_CHUNK_SIZE E)"

definition crossedXm :: "'a env \<Rightarrow> player \<Rightarrow> bool" where
  "crossedXm E p = (vx (currentPosition p) \<le> lastEdgeChunkSendX p - VIEWPORT_EDGE_CHUNK_SIZE E)"

definition crossedYp :: "'a env \<Rightarrow> player \<Rightarrow> bool" where
  "crossedYp E p = (vy (currentPosition p) \<ge> lastEdgeChunkSendY p + VIEWPORT_EDGE_CHUNK_SIZE E)"

definition crossedYm :: "'a env \<Rightarrow> player \<Rightarrow> bool" where
  "crossedYm E p = (vy (currentPosition p) \<le> lastEdgeChunkSendY p - VIEWPORT_EDGE_CHUNK_SIZE E)"

definition sentX :: "'a env \<Rightarrow> player \<Rightarrow> int" where
  "sentX E p = (if crossedXp E p \<or> crossedXm E p then vx (currentPosition p)
                else lastEdgeChunkSendX p)"

definition sentY :: "'a env \<Rightarrow> player \<Rightarrow> int" where
  "sentY E p = (if crossedYp E p \<or> crossedYm E p then vy (currentPosition p)
                else lastEdgeChunkSendY p)"

definition lastChunk :: "'a env \<Rightarrow> player \<Rightarrow> rect option" where
  "lastChunk E p =
     (let c = VIEWPORT_EDGE_CHUNK_SIZE E; v = MIN_TILES_VIEWPORT_RECT_SIZE E;
          px = vx (currentPosition p); py = vy (currentPosition p);
          ly = lastEdgeChunkSendY p; lx = sentX E p in
      if crossedYm E p
        then Some (Rect (Vec2 (lx - v - c) (py - v - c)) (Vec2 (lx - v - c + (v + c) * 2) (py - v - c + c)))
      else if crossedYp E p
        then Some (Rect (Vec2 (lx - v - c) (py + v)) (Vec2 (lx - v - c + (v + c) * 2) (py + v + c)))
      else if crossedXm E p
        then Some (Rect (Vec2 (px - v - c) (ly - v - c)) (Vec2 (px - v - c + c) (ly - v - c + (v + c) * 2)))
      else if crossedXp E p
        then Some (Rect (Vec2 (px + v) (ly - v - c)) (Vec2 (px + v + c) (ly - v - c + (v + c) * 2)))
      else None)"

text \<open>
  The cached tile type of a player that is generating a trail is not its own id: the trail
  starts on a tile of another value, which is cached, and every later tile either has
  another value again or closes the trail.
\<close>

definition tile_inv :: "player \<Rightarrow> bool" where
  "tile_inv p = (isGeneratingTrail p \<longrightarrow> currentTileType p \<noteq> pid p)"

text \<open>
  The calls logged between two states, the death broadcasts of a player and the hit-line
  announcements for a victim and a mover among them; whether a position is on the margin
  of the arena; the hit test the loop of \<open>#currentPositionChanged\<close> makes for a
  player; the death type recorded for a player.
\<close>

definition new_events :: "'a game \<Rightarrow> 'a game \<Rightarrow> event list" where
  "new_events g g' = drop (length (events g)) (events g')"

definition death_events :: "nat \<Rightarrow> event list \<Rightarrow> event list" where
  "death_events r evs =
     filter (\<lambda>e. e = BroadcastPlayerDeath r True \<or> e = BroadcastPlayerDeath r False) evs"

definition hit_lines :: "nat \<Rightarrow> nat \<Rightarrow> event list \<Rightarrow> event list" where
  "hit_lines victim mover evs = filter (\<lambda>e. e = BroadcastHitLineAnimation victim mover) evs"

definition out_of_bounds :: "'a env \<Rightarrow> 'a game \<Rightarrow> nat \<Rightarrow> bool" where
  "out_of_bounds E g this =
     (vx (currentPosition (heap g this)) \<le> 0 \<or> vy (currentPosition (heap g this)) \<le> 0 \<or>
      vx (currentPosition (heap g this)) \<ge> arena_width E (arena g) - 1 \<or>
      vy (currentPosition (heap g this)) \<ge> arena_height E (arena g) - 1)"

definition hit :: "'a env \<Rightarrow> 'a game \<Rightarrow> nat \<Rightarrow> nat \<Rightarrow> bool" where
  "hit E g this r =
     (pointIsInTrail E (heap g r) (currentPosition (heap g this)) (r \<noteq> this) = Inr True)"

definition death_type_of :: "player \<Rightarrow> death_type option" where
  "death_type_of p = map_option dtype (lastDeathState p)"

text \<open>What the loop of \<open>#currentPositionChanged\<close> does for one player.\<close>

definition hitStep :: "'a env \<Rightarrow> nat \<Rightarrow> nat \<Rightarrow> 'a game \<Rightarrow> 'a game" where
  "hitStep E this r g =
     (if hit E g this r
      then emit (BroadcastHitLineAnimation r this)
             (die (if r = this then DT_self else DT_player) (r = this) r g)
      else g)"

section \<open>Concrete inputs\<close>

definition env0 :: "unit env" where
  "env0 = \<lparr> SKINS_COUNT = 13, PLAYER_TRAVEL_SPEED = 6 / 1000, VIEWPORT_EDGE_CHUNK_SIZE = 5,
     MIN_TILES_VIEWPORT_RECT_SIZE = 20,
     checkTrailSegment = (\<lambda>pt a b.
        min (vx a) (vx b) \<le> vx pt \<and> vx pt \<le> max (vx a) (vx b) \<and>
        min (vy a) (vy b) \<le> vy pt \<and> vy pt \<le> max (vy a) (vy b)),
     arena_width = (\<lambda>_. 100), arena_height = (\<lambda>_. 100),
     getTileValue = (\<lambda>_ _. 0), fillPlayerTrail = (\<lambda>_ _ a. a),
     updateCapturedArea = (\<lambda>_ a. a), clearAllPlayerTiles = (\<lambda>_ a. a) \<rparr>"

text \<open>Two players with the ids 1 and 2, as the constructor leaves them.\<close>

definition game_two :: "unit game" where
  "game_two = \<lparr> heap = (\<lambda>r. newPlayer (int r)), members = [1, 2], events = [],
     arena = (), clock = (\<lambda>_. 0), reads = 0 \<rparr>"

definition player_left :: player where
  "player_left = (newPlayer 1)\<lparr>currentPosition := Vec2 5 5, currentDirection := Left\<rparr>"

text \<open>The same player moving up, the direction of the field initialiser.\<close>

definition player_up :: player where
  "player_up = (newPlayer 1)\<lparr>currentPosition := Vec2 5 5\<rparr>"

text \<open>
  Player 1 marked dead at time 1000; the readings of the clock are 1600, 1601, 1602 and
  then 6602.
\<close>

definition game_marked :: "unit game" where
  "game_marked =
     \<lparr> heap = (\<lambda>r. (newPlayer (int r))\<lparr>lastDeathState := Some \<lparr>dieTime = 1000, dtype = DT_self\<rparr>\<rparr>),
       members = [1], events = [BroadcastPlayerDeath 1 True], arena = (),
       clock = (\<lambda>n. if n = 0 then 1600 else if n = 1 then 1601 else if n = 2 then 1602 else 6602),
       reads = 0 \<rparr>"

text \<open>The same player, permanently dead since 1602, before the fourth reading.\<close>

definition game_permdead :: "unit game" where
  "game_permdead =
     update_player 1 (\<lambda>p. p\<lparr>permanentlyDead := True, permanentlyDieTime := 1602,
                             allMyTilesCleared := True\<rparr>) (game_marked\<lparr>reads := 3\<rparr>)"

text \<open>A player at (30,30) whose last edge chunks were sent at (20,20).\<close>

definition game_far :: "unit game" where
  "game_far = update_player 1 (\<lambda>p. p\<lparr>currentPosition := Vec2 30 30\<rparr>) game_two"

text \<open>
  The example of the re-entry: every tile belongs to player 1, which stands at (10,5) with
  the trail (5,5), (5,10), (10,10).
\<close>

definition env_own :: "unit env" where
  "env_own = env0\<lparr>getTileValue := (\<lambda>_ _. 1)\<rparr>"

definition game_reentry :: "unit game" where
  "game_reentry =
     update_player 1 (\<lambda>p. p\<lparr>currentPosition := Vec2 10 5,
        trailVertices := [Vec2 5 5, Vec2 5 10, Vec2 10 10],
        trailBounds := Rect (Vec2 5 5) (Vec2 10 10)\<rparr>) game_two"

definition game_one :: "unit game" where
  "game_one = \<lparr> heap = (\<lambda>r. newPlayer (int r)), members = [1], events = [],
     arena = (), clock = (\<lambda>_. 0), reads = 0 \<rparr>"

text \<open>
  Player 1 left its territory at (5,8) and has moved up to (5,5).
\<close>

definition game_trail :: "unit game" where
  "game_trail =
     update_player 1 (\<lambda>p. p\<lparr>currentPosition := Vec2 5 5, trailVertices := [Vec2 5 8],
        trailBounds := Rect (Vec2 5 5) (Vec2 5 8)\<rparr>) game_one"

text \<open>
  Player 2 has drawn the trail (10,10), (15,10), (15,15), (12,15) and moves up from
  (12,15); player 1, inside its territory, has just stepped on (15,12).
\<close>

definition game_hit_alive :: "unit game" where
  "game_hit_alive =
     update_player 1 (\<lambda>p. p\<lparr>currentPosition := Vec2 15 12, currentDirection := Left,
        trailBounds := Rect (Vec2 16 12) (Vec2 16 12)\<rparr>)
    (update_player 2 (\<lambda>p. p\<lparr>currentPosition := Vec2 12 12,
        trailVertices := [Vec2 10 10, Vec2 15 10, Vec2 15 15, Vec2 12 15],
        trailBounds := Rect (Vec2 10 10) (Vec2 15 15)\<rparr>) game_two)"

text \<open>
  The same, a little later: player 2 has run into its own trail at (12,10) and is marked
  dead with the type \<open>self\<close>.
\<close>

definition game_hit_dead :: "unit game" where
  "game_hit_dead =
     update_player 2 (\<lambda>p. p\<lparr>currentPosition := Vec2 12 10,
        lastDeathState := Some \<lparr>dieTime = 0, dtype = DT_self\<rparr>\<rparr>) game_hit_alive"

text \<open>
  Player 1 has drawn the trail (1,1), (5,1), (5,3), (2,3) and moves up from (2,2), with
  progress for two grid moves.
\<close>

definition game_start :: "unit game" where
  "game_start =
     update_player 1 (\<lambda>p. p\<lparr>currentPosition := Vec2 2 2,
        trailVertices := [Vec2 1 1, Vec2 5 1, Vec2 5 3, Vec2 2 3],
        trailBounds := Rect (Vec2 1 1) (Vec2 5 3),
        lastEdgeChunkSendX := 2, lastEdgeChunkSendY := 2,
        nextTileProgress := 24 / 10\<rparr>) game_one"

text \<open>
  After the first of the two moves the player has hit its own trail at (2,1); here it has
  been moved on to (2,0).
\<close>

definition game_crossed :: "unit game" where
  "game_crossed =
     update_player 1 (\<lambda>p. p\<lparr>currentPosition := Vec2 2 0,
        trailVertices := [Vec2 1 1, Vec2 5 1, Vec2 5 3, Vec2 2 3],
        trailBounds := Rect (Vec2 1 1) (Vec2 5 3),
        lastEdgeChunkSendX := 2, lastEdgeChunkSendY := 2,
        nextTileProgress := 4 / 10,
        lastDeathState := Some \<lparr>dieTime = 0, dtype = DT_self\<rparr>\<rparr>)
       (game_one\<lparr>events := [BroadcastPlayerDeath 1 True, BroadcastHitLineAnimation 1 1],
          reads := 1\<rparr>)"

text \<open>Player 1, inside its territory, has just stepped on (0,5).\<close>

definition game_edge :: "unit game" where
  "game_edge = update_player 1 (\<lambda>p. p\<lparr>currentPosition := Vec2 0 5, currentDirection := Left\<rparr>) game_one"

text \<open>The state of \<open>game_start\<close> with the player moved to (2,1), in the first grid move.\<close>

definition game_moved :: "unit game" where
  "game_moved =
     update_player 1 (\<lambda>p. p\<lparr>currentPosition := Vec2 2 1,
        trailVertices := [Vec2 1 1, Vec2 5 1, Vec2 5 3, Vec2 2 3],
        trailBounds := Rect (Vec2 1 1) (Vec2 5 3),
        lastEdgeChunkSendX := 2, lastEdgeChunkSendY := 2,
        nextTileProgress := 14 / 10\<rparr>) game_one"

section \<open>Theorems\<close>

text \<open>
  Where it holds, the range the claim C1 gives: for a non-negative id, at least two skins
  and an own skin id in the range, the result is a number of the range.
\<close>

lemma skinIdForPlayer_range:
  assumes "0 \<le> pid (heap g this)" and "2 \<le> SKINS_COUNT E"
    and "0 \<le> skinId (heap g this)" and "skinId (heap g this) < SKINS_COUNT E"
  shows "\<exists>n. skinIdForPlayer E g this otherPlayer = Some n \<and> 0 \<le> n \<and> n < SKINS_COUNT E"
proof -
  have "0 \<le> pid (heap g this) mod (SKINS_COUNT E - 1)"
    and "pid (heap g this) mod (SKINS_COUNT E - 1) < SKINS_COUNT E - 1"
    using assms(2) by simp_all
  moreover have "js_rem (pid (heap g this)) (SKINS_COUNT E - 1)
      = Some (pid (heap g this) mod (SKINS_COUNT E - 1))"
    using assms(1,2) by (cases "pid (heap g this) = 0") (simp_all add: js_rem_def)
  ultimately show ?thesis
    using assms(3,4) by (simp add: skinIdForPlayer_def)
qed

text \<open>
  C1 (failing input). Two different players with the same skin id: whenever the id of the
  first, modulo \<open>SKINS_COUNT - 1\<close>, is the skin id of the other minus one, the substitute
  is not below \<open>otherPlayer.skinId - 1\<close>, so it is incremented, and the function returns
  the other player's own skin id. Players 1 and 2 both carry the skin id 2 of the field
  initialiser; for player 1 seen by player 2, with 13 skins, the substitute is \<open>1 % 12 = 1\<close>
  and the result is 2.
\<close>

theorem skinIdForPlayer_returns_other_skin:
  assumes "otherPlayer \<noteq> this" and "skinId (heap g this) = skinId (heap g otherPlayer)"
    and "0 < pid (heap g this)" and "2 \<le> SKINS_COUNT E"
    and "pid (heap g this) mod (SKINS_COUNT E - 1) = skinId (heap g otherPlayer) - 1"
  shows "skinIdForPlayer E g this otherPlayer = Some (skinId (heap g otherPlayer))"
proof -
  have "js_rem (pid (heap g this)) (SKINS_COUNT E - 1)
      = Some (pid (heap g this) mod (SKINS_COUNT E - 1))"
    using assms(3,4) by (simp add: js_rem_def)
  then show ?thesis
    using assms(1,2,5) by (simp add: skinIdForPlayer_def)
qed

theorem skinIdForPlayer_returns_other_skin_witness:
  "(2::nat) \<noteq> 1 \<and> skinId (heap game_two 1) = skinId (heap game_two 2) \<and>
   0 < pid (heap game_two 1) \<and> 2 \<le> SKINS_COUNT env0 \<and>
   pid (heap game_two 1) mod (SKINS_COUNT env0 - 1) = skinId (heap game_two 2) - 1 \<and>
   skinId (heap game_two 2) = 2 \<and> skinIdForPlayer env0 game_two 1 2 = Some 2"
  using skinIdForPlayer_returns_other_skin [of 2 1 game_two env0]
  by (simp add: game_two_def newPlayer_def env0_def)

text \<open>
  C2 (as stated, refuted). A player moving left at (5,5) asks to turn up at (7,5): the
  intent is accepted although the desired x differs from the current x.
\<close>

theorem checkNextMoveValidity_x_counterexample:
  "\<not> (checkNextMoveValidity player_left (Vec2 7 5) Up
        \<longrightarrow> vx (Vec2 7 5) = vx (currentPosition player_left))"
  by (simp add: checkNextMoveValidity_def player_left_def newPlayer_def)

text \<open>
  C2 (amended). For an intent that is not a pause: when the current direction is
  horizontal and the requested one vertical, the intent is valid exactly if the desired y
  equals the current y; when the current direction is vertical and the requested one
  horizontal, exactly if the desired x equals the current x; an intent on the axis of the
  current direction, or repeating the current direction, is never valid.
\<close>

theorem checkNextMoveValidity_alignment:
  "(horizontal (currentDirection p) \<and> vertical newDirection \<longrightarrow>
      checkNextMoveValidity p desiredPosition newDirection
        = (vy desiredPosition = vy (currentPosition p))) \<and>
   (vertical (currentDirection p) \<and> horizontal newDirection \<longrightarrow>
      checkNextMoveValidity p desiredPosition newDirection
        = (vx desiredPosition = vx (currentPosition p))) \<and>
   ((horizontal (currentDirection p) \<and> horizontal newDirection) \<or>
    (vertical (currentDirection p) \<and> vertical newDirection) \<or>
    currentDirection p = newDirection \<longrightarrow>
      \<not> checkNextMoveValidity p desiredPosition newDirection)"
  by (cases "currentDirection p"; cases newDirection)
     (simp_all add: checkNextMoveValidity_def horizontal_def vertical_def)

theorem checkNextMoveValidity_alignment_witness:
  "horizontal (currentDirection player_left) \<and> vertical Up \<and>
   checkNextMoveValidity player_left (Vec2 7 5) Up \<and>
   \<not> checkNextMoveValidity player_left (Vec2 5 7) Up \<and>
   \<not> checkNextMoveValidity player_left (Vec2 5 5) Right \<and>
   \<not> checkNextMoveValidity player_left (Vec2 5 5) Left \<and>
   vertical (currentDirection player_up) \<and> horizontal Right \<and>
   checkNextMoveValidity player_up (Vec2 5 2) Right \<and>
   \<not> checkNextMoveValidity player_up (Vec2 6 5) Right \<and>
   \<not> checkNextMoveValidity player_up (Vec2 5 5) Down"
  using checkNextMoveValidity_alignment [of player_left Up "Vec2 7 5"]
        checkNextMoveValidity_alignment [of player_left Up "Vec2 5 7"]
        checkNextMoveValidity_alignment [of player_left Right "Vec2 5 5"]
        checkNextMoveValidity_alignment [of player_left Left "Vec2 5 5"]
        checkNextMoveValidity_alignment [of player_up Right "Vec2 5 2"]
        checkNextMoveValidity_alignment [of player_up Right "Vec2 6 5"]
        checkNextMoveValidity_alignment [of player_up Down "Vec2 5 5"]
  by (simp add: horizontal_def vertical_def player_left_def player_up_def newPlayer_def)

subsection \<open>The movement queue\<close>

lemma drainMovementQueue_empties:
  "movementQueue (heap (drainMovementQueue this g) this) = []"
proof (induction this g rule: drainMovementQueue.induct)
  case (1 this g)
  show ?case
  proof (cases "length (movementQueue (heap g this)) \<le> 0")
    case True
    then show ?thesis by (simp add: drainMovementQueue.simps [of this g])
  next
    case False
    then show ?thesis
      using "1.IH"
      by (simp add: drainMovementQueue.simps [of this g] Let_def)
  qed
qed

text \<open>
  C10. \<open>drainMovementQueue\<close> is a total function (its termination is proved with the
  length of the queue as measure), so every call of \<open>clientPosUpdateRequested\<close> returns;
  the queue is empty in the state it returns, and both ways an iteration can go, accepting
  the first item or rejecting it, hand the rest of the queue to the next iteration.
\<close>

theorem clientPosUpdateRequested_empties_queue:
  "movementQueue (heap (clientPosUpdateRequested direction desiredPosition this g) this) = [] \<and>
   movementQueue (heap (acceptMove this item g) this) = tl (movementQueue (heap g this)) \<and>
   movementQueue (heap (update_player this (\<lambda>p. p\<lparr>movementQueue := tl (movementQueue p)\<rparr>) g) this)
     = tl (movementQueue (heap g this))"
  by (simp add: clientPosUpdateRequested_def drainMovementQueue_empties acceptMove_def Let_def)

theorem clientPosUpdateRequested_empties_queue_witness:
  "movementQueue (heap (clientPosUpdateRequested Left (Vec2 20 18) 1 game_two) 1) = []"
  using clientPosUpdateRequested_empties_queue [of Left "Vec2 20 18" 1 game_two]
  by simp

subsection \<open>Idempotent re-entry\<close>

text \<open>
  C9. \<open>die\<close> on a player that is already marked dead returns the state as it is (death
  state, log of broadcasts and all); clearing the tiles a second time changes nothing
  after the first time; and a second \<open>#permanentlyDie\<close>, whether the first returned or
  threw, returns the state as it is.
\<close>

theorem idempotent_reentry:
  "(lastDeathState (heap g this) \<noteq> None \<longrightarrow> die deathType sendPosition this g = g) \<and>
   clearAllMyTiles E this (clearAllMyTiles E this g) = clearAllMyTiles E this g \<and>
   permanentlyDie E this (state_of (permanentlyDie E this g))
     = Inr (state_of (permanentlyDie E this g))"
proof (intro conjI)
  show "lastDeathState (heap g this) \<noteq> None \<longrightarrow> die deathType sendPosition this g = g"
    by (simp add: die_def)
  have cleared: "allMyTilesCleared (heap (clearAllMyTiles E this g') this)" for g' :: "'a game"
    by (simp add: clearAllMyTiles_def Let_def)
  show "clearAllMyTiles E this (clearAllMyTiles E this g) = clearAllMyTiles E this g"
    using cleared [of g] by (simp add: clearAllMyTiles_def [of E this "clearAllMyTiles E this g"])
  have pd: "permanentlyDead (heap (clearAllMyTiles E this g') this) = permanentlyDead (heap g' this)"
    for g' :: "'a game"
    by (simp add: clearAllMyTiles_def Let_def)
  have "permanentlyDead (heap (state_of (permanentlyDie E this g)) this)"
    by (simp add: permanentlyDie_def state_of_def Let_def performance_now_def pd
             split: option.splits)
  then show "permanentlyDie E this (state_of (permanentlyDie E this g))
     = Inr (state_of (permanentlyDie E this g))"
    by (simp add: permanentlyDie_def [of E this "state_of (permanentlyDie E this g)"])
qed

theorem idempotent_reentry_witness:
  "lastDeathState (heap game_marked 1) \<noteq> None \<and>
   die DT_player False 1 game_marked = game_marked \<and>
   events (die DT_player False 1 game_marked) = [BroadcastPlayerDeath 1 True]"
  using idempotent_reentry [of game_marked 1 DT_player False]
  by (simp add: game_marked_def)

subsection \<open>Viewport edge chunks\<close>

text \<open>
  C8. With a positive chunk size, one call of \<open>#sendRequiredEdgeChunks\<close> sends at most
  one chunk: none if no threshold is crossed, otherwise the rectangle of the last crossed
  side in the order +X, -X, +Y, -Y; \<open>#lastEdgeChunkSendX\<close> and \<open>#lastEdgeChunkSendY\<close>
  are set to the current coordinate on every axis with a crossed threshold.
\<close>

theorem sendRequiredEdgeChunks_last_only:
  assumes "VIEWPORT_EDGE_CHUNK_SIZE E > 0"
  shows "events (sendRequiredEdgeChunks E this g) =
           events g @ (case lastChunk E (heap g this) of None \<Rightarrow> []
                       | Some r \<Rightarrow> [SendChunk this r]) \<and>
         lastEdgeChunkSendX (heap (sendRequiredEdgeChunks E this g) this) = sentX E (heap g this) \<and>
         lastEdgeChunkSendY (heap (sendRequiredEdgeChunks E this g) this) = sentY E (heap g this)"
  using assms
  by (simp add: sendRequiredEdgeChunks_def lastChunk_def sentX_def sentY_def
        crossedXp_def crossedXm_def crossedYp_def crossedYm_def Let_def)

theorem sendRequiredEdgeChunks_last_only_witness:
  "VIEWPORT_EDGE_CHUNK_SIZE env0 > 0 \<and>
   crossedXp env0 (heap game_far 1) \<and> crossedYp env0 (heap game_far 1) \<and>
   events (sendRequiredEdgeChunks env0 1 game_far) = [SendChunk 1 (Rect (Vec2 5 50) (Vec2 55 55))] \<and>
   lastEdgeChunkSendX (heap (sendRequiredEdgeChunks env0 1 game_far) 1) = 30 \<and>
   lastEdgeChunkSendY (heap (sendRequiredEdgeChunks env0 1 game_far) 1) = 30"
  using sendRequiredEdgeChunks_last_only [of env0 1 game_far]
  by (simp add: env0_def game_far_def game_two_def newPlayer_def lastChunk_def sentX_def
        sentY_def crossedXp_def crossedXm_def crossedYp_def crossedYm_def)

subsection \<open>Death timers\<close>

lemma loop_dead:
  "lastDeathState (heap g this) \<noteq> None \<Longrightarrow> loop E now dt this g = deathTimers E this g"
  by (simp add: loop_def dead_def)

lemma clearAllMyTiles_heap:
  "heap (clearAllMyTiles E this g) = (heap g)(this := (heap g this)\<lparr>allMyTilesCleared := True\<rparr>)"
  by (auto simp: clearAllMyTiles_def Let_def fun_eq_iff)

lemma clearAllMyTiles_clock [simp]:
  "clock (clearAllMyTiles E this g) = clock g" "reads (clearAllMyTiles E this g) = reads g"
  by (simp_all add: clearAllMyTiles_def Let_def)

lemma clearAllMyTiles_events:
  "events (clearAllMyTiles E this g) =
     events g @ (if allMyTilesCleared (heap g this) then [] else [ClearAllPlayerTiles (pid (heap g this))])"
  by (simp add: clearAllMyTiles_def Let_def)

text \<open>
  C3 (as stated, refuted). Player 1 was marked dead at time 1000. A tick whose clock
  reading is 1600, exactly 600 ms later, leaves the player as it was: it is not permanently
  dead after that tick.
\<close>

theorem death_timer_600_counterexample:
  "clock game_marked (reads game_marked) = 1000 + 600 \<and>
   loop env0 1600 16 1 game_marked = Inr (game_marked\<lparr>reads := 1\<rparr>) \<and>
   \<not> permanentlyDead (heap (game_marked\<lparr>reads := 1\<rparr>) 1)"
  by (simp add: loop_def dead_def deathTimers_def performance_now_def game_marked_def newPlayer_def)

text \<open>
  C3 (amended). For a player marked dead with \<open>dieTime\<close> t, one tick does the following.
  If the player is not yet permanently dead and the reading of the clock at the check
  exceeds t by at most 600, nothing changes but the clock. If it exceeds t by more than
  600, the player becomes permanently dead, the next reading of the clock is recorded as
  \<open>permanentlyDieTime\<close>, the tiles are cleared once, the game-over message with the
  recorded death type is sent, and the connection is closed in this tick exactly if the
  reading after that exceeds \<open>permanentlyDieTime\<close> by more than 5000. If the player is
  permanently dead already, the tick changes no player, and it closes the connection
  exactly if the reading at the close check exceeds \<open>permanentlyDieTime\<close> by more than
  5000.
\<close>

theorem death_timers_strict:
  assumes "lastDeathState (heap g this) = Some ds"
  shows
  "(\<not> permanentlyDead (heap g this) \<and> clock g (reads g) - dieTime ds \<le> 600 \<longrightarrow>
      loop E now dt this g = Inr (g\<lparr>reads := Suc (reads g)\<rparr>)) \<and>
   (\<not> permanentlyDead (heap g this) \<and> clock g (reads g) - dieTime ds > 600 \<longrightarrow>
      (\<exists>g'. loop E now dt this g = Inr g' \<and> permanentlyDead (heap g' this) \<and>
         permanentlyDieTime (heap g' this) = clock g (reads g + 1) \<and>
         events g' = events g
           @ (if allMyTilesCleared (heap g this) then [] else [ClearAllPlayerTiles (pid (heap g this))])
           @ [SendGameOver this (dtype ds)]
           @ (if clock g (reads g + 2) - clock g (reads g + 1) > 5000
              then [ConnectionClose this] else []))) \<and>
   (permanentlyDead (heap g this) \<longrightarrow>
      (\<exists>g'. loop E now dt this g = Inr g' \<and> heap g' = heap g \<and>
         events g' = events g
           @ (if clock g (reads g + 1) - permanentlyDieTime (heap g this) > 5000
              then [ConnectionClose this] else [])))"
proof -
  have l: "loop E now dt this g = deathTimers E this g"
    using assms by (simp add: loop_dead)
  show ?thesis
    unfolding l using assms
    by (simp add: deathTimers_def performance_now_def permanentlyDie_def Let_def
          clearAllMyTiles_heap clearAllMyTiles_events)
qed

theorem death_timers_strict_witness:
  "lastDeathState (heap game_marked 1) = Some \<lparr>dieTime = 1000, dtype = DT_self\<rparr> \<and>
   \<not> permanentlyDead (heap game_marked 1) \<and>
   loop env0 1600 16 1 game_marked = Inr (game_marked\<lparr>reads := 1\<rparr>) \<and>
   (\<exists>g'. loop env0 1601 16 1 (game_marked\<lparr>reads := 1\<rparr>) = Inr g' \<and> permanentlyDead (heap g' 1) \<and>
      permanentlyDieTime (heap g' 1) = 1602 \<and>
      events g' = [BroadcastPlayerDeath 1 True, ClearAllPlayerTiles 1, SendGameOver 1 DT_self]) \<and>
   permanentlyDead (heap game_permdead 1) \<and>
   (\<exists>g'. loop env0 6602 16 1 game_permdead = Inr g' \<and> events g' = [BroadcastPlayerDeath 1 True]) \<and>
   (\<exists>g'. loop env0 6603 16 1 (game_permdead\<lparr>clock := (\<lambda>_. 6603)\<rparr>) = Inr g' \<and>
      events g' = [BroadcastPlayerDeath 1 True, ConnectionClose 1])"
  using death_timers_strict [of game_marked 1 "\<lparr>dieTime = 1000, dtype = DT_self\<rparr>" env0 1600 16]
    death_timers_strict [of "game_marked\<lparr>reads := 1\<rparr>" 1 "\<lparr>dieTime = 1000, dtype = DT_self\<rparr>" env0 1601 16]
    death_timers_strict [of game_permdead 1 "\<lparr>dieTime = 1000, dtype = DT_self\<rparr>" env0 6602 16]
    death_timers_strict [of "game_permdead\<lparr>clock := (\<lambda>_. 6603)\<rparr>" 1
       "\<lparr>dieTime = 1000, dtype = DT_self\<rparr>" env0 6603 16]
  by (auto simp: game_marked_def game_permdead_def newPlayer_def update_player_def)

subsection \<open>The hit loop\<close>

lemma pointIsInTrail_total: "\<exists>b. pointIsInTrail E p point inc = Inr b"
  by (cases "trailVertices p")
     (auto simp: pointIsInTrail_def isGeneratingTrail_def at_last_def)

lemma pointIsInTrail_death [simp]:
  "pointIsInTrail E (p\<lparr>lastDeathState := d\<rparr>) point inc = pointIsInTrail E p point inc"
  by (simp add: pointIsInTrail_def isGeneratingTrail_def cong: option.case_cong)

lemma events_die:
  "events (die ty sp r g) =
     events g @ (if lastDeathState (heap g r) \<noteq> None then [] else [BroadcastPlayerDeath r sp])"
  by (simp add: die_def performance_now_def)

lemma hitPlayers_Cons:
  "hitPlayers E this (r # rs) g = hitPlayers E this rs (hitStep E this r g)"
proof -
  obtain b where "pointIsInTrail E (heap g r) (currentPosition (heap g this)) (r \<noteq> this) = Inr b"
    using pointIsInTrail_total by blast
  then show ?thesis by (simp add: hitStep_def hit_def Let_def)
qed

declare hitPlayers.simps(2) [simp del]

lemma same_but_death_hitStep: "same_but_death g (hitStep E this r g)"
  by (simp add: hitStep_def same_but_death_refl same_but_death_emit same_but_death_die)

lemma same_but_death_hit:
  assumes "same_but_death g g'"
  shows "hit E g' this r = hit E g this r"
proof -
  from assms have a: "heap g' r = (heap g r)\<lparr>lastDeathState := lastDeathState (heap g' r)\<rparr>"
    and b: "heap g' this = (heap g this)\<lparr>lastDeathState := lastDeathState (heap g' this)\<rparr>"
    by (simp_all add: same_but_death_def)
  have "currentPosition (heap g' this) = currentPosition (heap g this)"
    by (subst b) simp
  then show ?thesis
    unfolding hit_def by (subst a) simp
qed

lemma hitPlayers_total: "\<exists>g'. hitPlayers E this rs g = Inr g'"
  by (induction rs arbitrary: g) (simp_all add: hitPlayers_Cons)

lemma hitStep_events:
  "events (hitStep E this r g) =
     events g @ (if hit E g this r
                 then (if lastDeathState (heap g r) \<noteq> None then []
                       else [BroadcastPlayerDeath r (r = this)])
                      @ [BroadcastHitLineAnimation r this]
                 else [])"
  by (simp add: hitStep_def events_die)

lemma hitStep_heap_other:
  "q \<noteq> r \<Longrightarrow> heap (hitStep E this r g) q = heap g q"
  by (simp add: hitStep_def heap_die)

lemma hitStep_heap_dead:
  "lastDeathState (heap g q) \<noteq> None \<Longrightarrow> heap (hitStep E this r g) q = heap g q"
  by (auto simp: hitStep_def heap_die)

lemma hitStep_heap_miss:
  "\<not> hit E g this r \<Longrightarrow> hitStep E this r g = g"
  by (simp add: hitStep_def)

lemma hitStep_death_type:
  "hit E g this r \<Longrightarrow> lastDeathState (heap g r) = None \<Longrightarrow>
   death_type_of (heap (hitStep E this r g) r) = Some (if r = this then DT_self else DT_player)"
  by (simp add: hitStep_def heap_die death_type_of_def)

text \<open>The events of the whole loop, from the state it starts in.\<close>

lemma hitPlayers_prefix:
  "hitPlayers E this rs g = Inr g' \<Longrightarrow> events g' = events g @ new_events g g'"
proof (induction rs arbitrary: g)
  case Nil
  then show ?case by (simp add: new_events_def)
next
  case (Cons r rs)
  then have "events g' = events (hitStep E this r g) @ new_events (hitStep E this r g) g'"
    by (simp add: hitPlayers_Cons)
  then have "events g' = events g @ (drop (length (events g)) (events g'))"
    by (metis append_eq_conv_conj append.assoc hitStep_events)
  then show ?case by (simp add: new_events_def)
qed

lemma new_events_trans:
  assumes "events g1 = events g @ new_events g g1" and "events g2 = events g1 @ new_events g1 g2"
  shows "new_events g g2 = new_events g g1 @ new_events g1 g2"
proof -
  have "events g2 = events g @ (new_events g g1 @ new_events g1 g2)"
    using assms by simp
  then show ?thesis
    by (metis append_eq_conv_conj new_events_def)
qed

lemma new_events_hitStep:
  "new_events g (hitStep E this r g) =
     (if hit E g this r
      then (if lastDeathState (heap g r) \<noteq> None then []
            else [BroadcastPlayerDeath r (r = this)]) @ [BroadcastHitLineAnimation r this]
      else [])"
  by (simp add: new_events_def hitStep_events)

lemma hitPlayers_new_events_Cons:
  assumes "hitPlayers E this (r # rs) g = Inr g'"
  shows "new_events g g' = new_events g (hitStep E this r g) @ new_events (hitStep E this r g) g'"
proof (rule new_events_trans)
  show "events (hitStep E this r g) = events g @ new_events g (hitStep E this r g)"
    by (simp add: new_events_def hitStep_events)
  show "events g' = events (hitStep E this r g) @ new_events (hitStep E this r g) g'"
    using assms by (simp add: hitPlayers_Cons hitPlayers_prefix)
qed

lemma death_events_hitStep:
  "death_events q (new_events g (hitStep E this r g)) =
     (if q = r \<and> hit E g this r \<and> lastDeathState (heap g r) = None
      then [BroadcastPlayerDeath r (r = this)] else [])"
  by (auto simp: new_events_hitStep death_events_def)

lemma hit_lines_hitStep:
  "hit_lines q this (new_events g (hitStep E this r g)) =
     (if q = r \<and> hit E g this r then [BroadcastHitLineAnimation r this] else [])"
  by (auto simp: new_events_hitStep hit_lines_def)

lemma death_events_append [simp]:
  "death_events q (xs @ ys) = death_events q xs @ death_events q ys"
  by (simp add: death_events_def)

lemma hit_lines_append [simp]:
  "hit_lines q m (xs @ ys) = hit_lines q m xs @ hit_lines q m ys"
  by (simp add: hit_lines_def)

lemma hit_hitStep: "hit E (hitStep E this r g) this q = hit E g this q"
  by (rule same_but_death_hit) (rule same_but_death_hitStep)

lemma hitPlayers_dead:
  "hitPlayers E this rs g = Inr g' \<Longrightarrow> lastDeathState (heap g q) \<noteq> None \<Longrightarrow>
   heap g' q = heap g q \<and> death_events q (new_events g g') = []"
proof (induction rs arbitrary: g)
  case Nil
  then show ?case by (simp add: new_events_def death_events_def)
next
  case (Cons r rs)
  let ?g1 = "hitStep E this r g"
  have h: "heap ?g1 q = heap g q" using Cons.prems(2) by (rule hitStep_heap_dead)
  have run: "hitPlayers E this rs ?g1 = Inr g'"
    using Cons.prems(1) by (simp add: hitPlayers_Cons)
  from Cons.IH [OF run] h Cons.prems(2)
  have "heap g' q = heap g q" and "death_events q (new_events ?g1 g') = []"
    by simp_all
  moreover have "death_events q (new_events g ?g1) = []"
    using Cons.prems(2) by (auto simp: death_events_hitStep)
  ultimately show ?case
    by (simp add: hitPlayers_new_events_Cons [OF Cons.prems(1)])
qed

lemma hitPlayers_untouched:
  "hitPlayers E this rs g = Inr g' \<Longrightarrow> q \<notin> set rs \<or> \<not> hit E g this q \<Longrightarrow>
   heap g' q = heap g q \<and> death_events q (new_events g g') = [] \<and>
   hit_lines q this (new_events g g') = []"
proof (induction rs arbitrary: g)
  case Nil
  then show ?case by (simp add: new_events_def death_events_def hit_lines_def)
next
  case (Cons r rs)
  let ?g1 = "hitStep E this r g"
  have run: "hitPlayers E this rs ?g1 = Inr g'"
    using Cons.prems(1) by (simp add: hitPlayers_Cons)
  have cond: "q \<notin> set rs \<or> \<not> hit E ?g1 this q"
    using Cons.prems(2) by (auto simp: hit_hitStep)
  have miss: "q \<noteq> r \<or> \<not> hit E g this r"
    using Cons.prems(2) by auto
  then have h: "heap ?g1 q = heap g q"
    by (auto simp: hitStep_heap_other hitStep_heap_miss)
  have e: "death_events q (new_events g ?g1) = []" "hit_lines q this (new_events g ?g1) = []"
    using miss by (auto simp: death_events_hitStep hit_lines_hitStep)
  from Cons.IH [OF run cond] h e show ?case
    by (simp add: hitPlayers_new_events_Cons [OF Cons.prems(1)])
qed

lemma hitPlayers_hit:
  "hitPlayers E this rs g = Inr g' \<Longrightarrow> distinct rs \<Longrightarrow> q \<in> set rs \<Longrightarrow> hit E g this q \<Longrightarrow>
   hit_lines q this (new_events g g') = [BroadcastHitLineAnimation q this] \<and>
   (lastDeathState (heap g q) = None \<longrightarrow>
      death_type_of (heap g' q) = Some (if q = this then DT_self else DT_player) \<and>
      death_events q (new_events g g') = [BroadcastPlayerDeath q (q = this)])"
proof (induction rs arbitrary: g)
  case Nil
  then show ?case by simp
next
  case (Cons r rs)
  let ?g1 = "hitStep E this r g"
  have run: "hitPlayers E this rs ?g1 = Inr g'"
    using Cons.prems(1) by (simp add: hitPlayers_Cons)
  note split = hitPlayers_new_events_Cons [OF Cons.prems(1)]
  show ?case
  proof (cases "q = r")
    case True
    with Cons.prems(2) have "q \<notin> set rs" by simp
    then have rest: "heap g' q = heap ?g1 q" "death_events q (new_events ?g1 g') = []"
      "hit_lines q this (new_events ?g1 g') = []"
      using hitPlayers_untouched [OF run, of q] by simp_all
    show ?thesis
      using rest True Cons.prems(4)
      by (simp add: split death_events_hitStep hit_lines_hitStep hitStep_death_type)
  next
    case False
    with Cons.prems have q: "q \<in> set rs" "distinct rs" "hit E ?g1 this q"
      by (simp_all add: hit_hitStep)
    have h: "heap ?g1 q = heap g q" using False by (simp add: hitStep_heap_other)
    from Cons.IH [OF run q(2) q(1) q(3)] h False show ?thesis
      by (simp add: split death_events_hitStep hit_lines_hitStep)
  qed
qed

lemma updateTrailBounds_simps [simp]:
  "events (updateTrailBounds this g) = events g"
  "members (updateTrailBounds this g) = members g"
  "arena (updateTrailBounds this g) = arena g"
  "clock (updateTrailBounds this g) = clock g"
  "reads (updateTrailBounds this g) = reads g"
  by (simp_all add: updateTrailBounds_def Let_def)

lemma updateTrailBounds_heap:
  "heap (updateTrailBounds this g) q =
     (heap g q)\<lparr>trailBounds := trailBounds (heap (updateTrailBounds this g) q)\<rparr>"
  by (simp add: updateTrailBounds_def Let_def)

lemma updateTrailBounds_fields [simp]:
  "lastDeathState (heap (updateTrailBounds this g) q) = lastDeathState (heap g q)"
  "currentPosition (heap (updateTrailBounds this g) q) = currentPosition (heap g q)"
  "trailVertices (heap (updateTrailBounds this g) q) = trailVertices (heap g q)"
  by (subst updateTrailBounds_heap, simp)+

lemma pointIsInTrail_bounds [simp]:
  "pointIsInTrail E (p\<lparr>trailBounds := b\<rparr>) point inc = pointIsInTrail E p point inc"
  by (simp add: pointIsInTrail_def isGeneratingTrail_def cong: option.case_cong)

lemma hit_updateTrailBounds [simp]: "hit E (updateTrailBounds this g) this q = hit E g this q"
  unfolding hit_def
  by (subst updateTrailBounds_heap) simp

lemma out_of_bounds_updateTrailBounds [simp]:
  "out_of_bounds E (updateTrailBounds this g) this = out_of_bounds E g this"
  by (simp add: out_of_bounds_def)

lemma checkAreaBounds_eq:
  "checkAreaBounds E this g = (if out_of_bounds E g this then die DT_area_bounds True this g else g)"
  by (simp add: checkAreaBounds_def out_of_bounds_def Let_def)

lemma same_but_death_checkAreaBounds: "same_but_death g (checkAreaBounds E this g)"
  by (simp add: checkAreaBounds_eq same_but_death_die same_but_death_refl)

lemma same_but_death_bounds:
  assumes "same_but_death g g'"
  shows "pointIsInTrailBounds (heap g' q) pt = pointIsInTrailBounds (heap g q) pt"
proof -
  from assms have a: "heap g' q = (heap g q)\<lparr>lastDeathState := lastDeathState (heap g' q)\<rparr>"
    by (simp add: same_but_death_def)
  show ?thesis by (subst a) (simp add: pointIsInTrailBounds_def)
qed

lemma same_but_death_position:
  assumes "same_but_death g g'"
  shows "currentPosition (heap g' q) = currentPosition (heap g q)"
proof -
  from assms have a: "heap g' q = (heap g q)\<lparr>lastDeathState := lastDeathState (heap g' q)\<rparr>"
    by (simp add: same_but_death_def)
  show ?thesis by (subst a) simp
qed

lemma lastDeathState_sendRequiredEdgeChunks [simp]:
  "lastDeathState (heap (sendRequiredEdgeChunks E this g) q) = lastDeathState (heap g q)"
  by (subst sendRequiredEdgeChunks_frame) simp

lemma events_sendRequiredEdgeChunks:
  "\<exists>c. events (sendRequiredEdgeChunks E this g) = events g @ c \<and>
       death_events q c = [] \<and> hit_lines q m c = []"
  by (simp add: sendRequiredEdgeChunks_def Let_def death_events_def hit_lines_def
        split: option.splits)

text \<open>The stages of \<open>#currentPositionChanged\<close>.\<close>

lemma currentPositionChanged_stages:
  obtains g3 where
    "hitPlayers E this
       (getOverlappingTrailBoundsPlayers (checkAreaBounds E this (updateTrailBounds this g))
          (currentPosition (heap g this)))
       (checkAreaBounds E this (updateTrailBounds this g)) = Inr g3"
    and "currentPositionChanged E this g = Inr (sendRequiredEdgeChunks E this g3)"
proof -
  let ?g2 = "checkAreaBounds E this (updateTrailBounds this g)"
  have pos: "currentPosition (heap ?g2 this) = currentPosition (heap g this)"
    using same_but_death_position [OF same_but_death_checkAreaBounds, of E this "updateTrailBounds this g" this]
    by simp
  obtain g3 where
    h: "hitPlayers E this (getOverlappingTrailBoundsPlayers ?g2 (currentPosition (heap g this))) ?g2 = Inr g3"
    using hitPlayers_total by blast
  then have "currentPositionChanged E this g = Inr (sendRequiredEdgeChunks E this g3)"
    by (simp add: currentPositionChanged_def Let_def pos)
  with h that show thesis by blast
qed

lemma new_events_stages:
  assumes "hitPlayers E this rs g2 = Inr g3" and "events g2 = events g @ a"
    and "events g' = events g3 @ c"
  shows "new_events g g' = a @ new_events g2 g3 @ c"
proof -
  have "events g3 = events g2 @ new_events g2 g3"
    using assms(1) by (rule hitPlayers_prefix)
  then have "events g' = events g @ (a @ new_events g2 g3 @ c)"
    using assms by simp
  then show ?thesis by (simp add: new_events_def)
qed

lemma currentPositionChanged_dead:
  assumes "lastDeathState (heap g q) \<noteq> None"
  shows "\<exists>g'. currentPositionChanged E this g = Inr g' \<and>
           lastDeathState (heap g' q) = lastDeathState (heap g q) \<and>
           death_events q (new_events g g') = []"
proof -
  let ?g1 = "updateTrailBounds this g"
  let ?g2 = "checkAreaBounds E this ?g1"
  obtain g3 where
    h: "hitPlayers E this (getOverlappingTrailBoundsPlayers ?g2 (currentPosition (heap g this))) ?g2 = Inr g3"
    and r: "currentPositionChanged E this g = Inr (sendRequiredEdgeChunks E this g3)"
    by (rule currentPositionChanged_stages)
  define a where "a = (if out_of_bounds E g this \<and> lastDeathState (heap g this) = None
                       then [BroadcastPlayerDeath this True] else [])"
  have a: "events ?g2 = events g @ a"
    by (simp add: a_def checkAreaBounds_eq events_die)
  have a3: "death_events q a = []"
    using assms by (auto simp: a_def death_events_def)
  have d2: "heap ?g2 q = heap ?g1 q"
    using assms by (auto simp: checkAreaBounds_eq heap_die)
  then have "lastDeathState (heap ?g2 q) \<noteq> None" using assms by simp
  from hitPlayers_dead [OF h this]
  have h3: "heap g3 q = heap ?g2 q" "death_events q (new_events ?g2 g3) = []" by simp_all
  obtain c where c: "events (sendRequiredEdgeChunks E this g3) = events g3 @ c"
    "death_events q c = []"
    using events_sendRequiredEdgeChunks by blast
  have ne: "new_events g (sendRequiredEdgeChunks E this g3) = a @ new_events ?g2 g3 @ c"
    using h a c(1) by (rule new_events_stages)
  show ?thesis
    using r by (simp add: ne a3 h3 c(2) d2)
qed

lemma state_of_Inr [simp]: "state_of (Inr g) = g"
  by (simp add: state_of_def)

subsection \<open>The cached tile type\<close>

text \<open>
  The invariant \<open>tile_inv\<close> holds for a new player, and \<open>loop\<close> and
  \<open>clientPosUpdateRequested\<close> keep it for every player, also when they throw.
\<close>

lemma tile_inv_newPlayer: "tile_inv (newPlayer i)"
  by (simp add: tile_inv_def newPlayer_def isGeneratingTrail_def)

lemma tile_inv_fields [simp]:
  "tile_inv (p\<lparr>lastDeathState := a\<rparr>) = tile_inv p"
  "tile_inv (p\<lparr>trailBounds := b\<rparr>) = tile_inv p"
  "tile_inv (p\<lparr>lastEdgeChunkSendX := c\<rparr>) = tile_inv p"
  "tile_inv (p\<lparr>lastEdgeChunkSendY := d\<rparr>) = tile_inv p"
  "tile_inv (p\<lparr>nextTileProgress := e\<rparr>) = tile_inv p"
  "tile_inv (p\<lparr>currentPosition := f\<rparr>) = tile_inv p"
  "tile_inv (p\<lparr>currentDirection := h\<rparr>) = tile_inv p"
  "tile_inv (p\<lparr>movementQueue := i\<rparr>) = tile_inv p"
  "tile_inv (p\<lparr>permanentlyDead := j\<rparr>) = tile_inv p"
  "tile_inv (p\<lparr>permanentlyDieTime := k\<rparr>) = tile_inv p"
  "tile_inv (p\<lparr>allMyTilesCleared := l\<rparr>) = tile_inv p"
  by (simp_all add: tile_inv_def isGeneratingTrail_def)

lemma tile_inv_same_but_death:
  assumes "same_but_death g g'"
  shows "tile_inv (heap g' r) = tile_inv (heap g r)"
proof -
  from assms have a: "heap g' r = (heap g r)\<lparr>lastDeathState := lastDeathState (heap g' r)\<rparr>"
    by (simp add: same_but_death_def)
  show ?thesis by (subst a) simp
qed

lemma tile_inv_currentPositionChanged:
  "tile_inv (heap (state_of (currentPositionChanged E this g)) r) = tile_inv (heap g r)"
proof -
  let ?g1 = "updateTrailBounds this g"
  let ?g2 = "checkAreaBounds E this ?g1"
  obtain g3 where
    h: "hitPlayers E this (getOverlappingTrailBoundsPlayers ?g2 (currentPosition (heap g this))) ?g2 = Inr g3"
    and r: "currentPositionChanged E this g = Inr (sendRequiredEdgeChunks E this g3)"
    by (rule currentPositionChanged_stages)
  have "tile_inv (heap (sendRequiredEdgeChunks E this g3) r) = tile_inv (heap g3 r)"
    by (subst sendRequiredEdgeChunks_frame) simp
  also have "\<dots> = tile_inv (heap ?g2 r)"
    using hitPlayers_same_but_death [OF h] by (rule tile_inv_same_but_death)
  also have "\<dots> = tile_inv (heap ?g1 r)"
    using same_but_death_checkAreaBounds by (rule tile_inv_same_but_death)
  also have "\<dots> = tile_inv (heap g r)"
    by (subst updateTrailBounds_heap) simp
  finally show ?thesis by (simp add: r)
qed

lemma tile_inv_updateCurrentTile:
  assumes "tile_inv (heap g r)"
  shows "tile_inv (heap (state_of (updateCurrentTile E this g)) r)"
  using assms
  by (cases "r = this")
     (auto simp: updateCurrentTile_def closeTrail_def state_of_def tile_inv_def
        isGeneratingTrail_def Let_def)

lemma currentPositionChanged_total: "\<exists>g'. currentPositionChanged E this g = Inr g'"
  using currentPositionChanged_stages [of E this g] by blast

lemma tile_inv_gridMove:
  assumes "tile_inv (heap g r)"
  shows "tile_inv (heap (state_of (gridMove E this g)) r)"
proof -
  let ?g2 = "update_player this
               (\<lambda>p. p\<lparr>currentPosition := moveOne (currentDirection p) (currentPosition p)\<rparr>)
               (update_player this (\<lambda>p. p\<lparr>nextTileProgress := nextTileProgress p - 1\<rparr>) g)"
  obtain g3 where g3: "currentPositionChanged E this ?g2 = Inr g3"
    using currentPositionChanged_total by blast
  have "tile_inv (heap ?g2 r)" using assms by (cases "r = this") simp_all
  then have "tile_inv (heap g3 r)"
    using tile_inv_currentPositionChanged [of E this ?g2 r] by (simp add: g3)
  then have "tile_inv (heap (state_of (updateCurrentTile E this g3)) r)"
    by (rule tile_inv_updateCurrentTile)
  then show ?thesis
    by (simp add: gridMove_def Let_def g3)
qed

lemma tile_inv_moveLoop:
  "tile_inv (heap g r) \<Longrightarrow> tile_inv (heap (state_of (moveLoop E this g)) r)"
proof (induction E this g rule: moveLoop.induct)
  case (1 E this g)
  show ?case
  proof (cases "1 < nextTileProgress (heap g this)")
    case False
    then show ?thesis using "1.prems" by (simp add: moveLoop.simps [of E this g])
  next
    case True
    show ?thesis
    proof (cases "gridMove E this g")
      case (Inl eg)
      with tile_inv_gridMove [OF "1.prems", of E this] True show ?thesis
        by (simp add: moveLoop.simps [of E this g] state_of_def)
    next
      case (Inr g')
      with tile_inv_gridMove [OF "1.prems", of E this] have "tile_inv (heap g' r)" by simp
      with "1.IH" [OF True Inr] True Inr show ?thesis
        by (simp add: moveLoop.simps [of E this g])
    qed
  qed
qed

lemma tile_inv_clearAllMyTiles [simp]:
  "tile_inv (heap (clearAllMyTiles E this g) r) = tile_inv (heap g r)"
  by (simp add: clearAllMyTiles_heap)

lemma tile_inv_permanentlyDie:
  "tile_inv (heap (state_of (permanentlyDie E this g)) r) = tile_inv (heap g r)"
  by (simp add: permanentlyDie_def state_of_def Let_def performance_now_def split: option.splits)

lemma tile_inv_deathTimers:
  "tile_inv (heap (state_of (deathTimers E this g)) r) = tile_inv (heap g r)"
proof (cases "lastDeathState (heap g this)")
  case None
  then show ?thesis
    by (simp add: deathTimers_def performance_now_def)
next
  case (Some ds)
  show ?thesis
  proof (cases "clock g (reads g) - dieTime ds > 600")
    case False
    with Some show ?thesis by (simp add: deathTimers_def performance_now_def)
  next
    case True
    let ?g1 = "g\<lparr>reads := Suc (reads g)\<rparr>"
    have "tile_inv (heap (state_of (permanentlyDie E this ?g1)) r) = tile_inv (heap g r)"
      by (simp add: tile_inv_permanentlyDie)
    with Some True show ?thesis
      by (cases "permanentlyDie E this ?g1")
         (auto simp: deathTimers_def performance_now_def state_of_def)
  qed
qed

lemma tile_inv_loop:
  assumes "tile_inv (heap g r)"
  shows "tile_inv (heap (state_of (loop E now dt this g)) r)"
proof (cases "currentDirection (heap g this) \<noteq> Paused \<and> \<not> dead (heap g this)")
  case False
  then have "loop E now dt this g = deathTimers E this g"
    by (auto simp: loop_def)
  then show ?thesis using assms by (simp add: tile_inv_deathTimers)
next
  case True
  let ?g0 = "update_player this
               (\<lambda>p. p\<lparr>nextTileProgress := nextTileProgress p + dt * PLAYER_TRAVEL_SPEED E\<rparr>) g"
  have m: "tile_inv (heap (state_of (moveLoop E this ?g0)) r)"
    using assms by (intro tile_inv_moveLoop) (cases "r = this", simp_all)
  show ?thesis
  proof (cases "moveLoop E this ?g0")
    case (Inl eg)
    with True m show ?thesis by (simp add: loop_def)
  next
    case (Inr g1)
    with True m show ?thesis by (simp add: loop_def tile_inv_deathTimers)
  qed
qed

lemma tile_inv_acceptMove:
  "tile_inv (heap g r) \<Longrightarrow> tile_inv (heap (acceptMove this item g) r)"
  by (cases "r = this") (auto simp: acceptMove_def Let_def tile_inv_def isGeneratingTrail_def)

lemma tile_inv_drainMovementQueue:
  "tile_inv (heap g r) \<Longrightarrow> tile_inv (heap (drainMovementQueue this g) r)"
proof (induction this g rule: drainMovementQueue.induct)
  case (1 this g)
  show ?case
  proof (cases "length (movementQueue (heap g this)) \<le> 0")
    case True
    then show ?thesis using "1.prems" by (simp add: drainMovementQueue.simps [of this g])
  next
    case False
    show ?thesis
    proof (cases "checkNextMoveValidity (heap g this) (snd (hd (movementQueue (heap g this))))
                    (fst (hd (movementQueue (heap g this))))")
      case True
      have "tile_inv (heap (acceptMove this (hd (movementQueue (heap g this))) g) r)"
        using "1.prems" by (rule tile_inv_acceptMove)
      with False True "1.IH"(2) [OF False refl refl] show ?thesis
        by (simp add: drainMovementQueue.simps [of this g])
    next
      case v: False
      have "tile_inv (heap (update_player this
              (\<lambda>p. p\<lparr>movementQueue := tl (movementQueue p)\<rparr>) g) r)"
        using "1.prems" by (cases "r = this") simp_all
      with False v "1.IH"(1) [OF False refl refl] show ?thesis
        by (simp add: drainMovementQueue.simps [of this g])
    qed
  qed
qed

lemma tile_inv_clientPosUpdateRequested:
  "tile_inv (heap g r) \<Longrightarrow> tile_inv (heap (clientPosUpdateRequested d pos this g) r)"
  unfolding clientPosUpdateRequested_def
  by (rule tile_inv_drainMovementQueue) (cases "r = this", simp_all)

subsection \<open>Re-entering the own territory\<close>

text \<open>
  C6. A player that is generating a trail and stands on a tile of its own id, with its
  tiles not cleared and the cached tile type as the invariant has it: \<open>#updateCurrentTile\<close>
  returns; it calls the arena's fill once, with the trail followed by the current position
  and with the player's id, then the recomputation of the captured area for the id, and
  last it announces the trail, which is empty by then.
\<close>

theorem updateCurrentTile_reentry:
  assumes "isGeneratingTrail (heap g this)"
    and "getTileValue E (arena g) (currentPosition (heap g this)) = pid (heap g this)"
    and "tile_inv (heap g this)"
    and "\<not> allMyTilesCleared (heap g this)"
  shows "\<exists>g'. updateCurrentTile E this g = Inr g' \<and>
           events g' = events g @
             [FillPlayerTrail (trailVertices (heap g this) @ [currentPosition (heap g this)])
                (pid (heap g this)),
              UpdateCapturedArea (pid (heap g this)),
              BroadcastPlayerTrail this []] \<and>
           arena g' = updateCapturedArea E (pid (heap g this))
                        (fillPlayerTrail E
                           (trailVertices (heap g this) @ [currentPosition (heap g this)])
                           (pid (heap g this)) (arena g)) \<and>
           trailVertices (heap g' this) = [] \<and>
           currentTileType (heap g' this) = pid (heap g this)"
  using assms
  by (simp add: updateCurrentTile_def closeTrail_def tile_inv_def isGeneratingTrail_def Let_def)

theorem updateCurrentTile_reentry_witness:
  "isGeneratingTrail (heap game_reentry 1) \<and>
   getTileValue env_own (arena game_reentry) (currentPosition (heap game_reentry 1))
     = pid (heap game_reentry 1) \<and>
   tile_inv (heap game_reentry 1) \<and> \<not> allMyTilesCleared (heap game_reentry 1) \<and>
   (\<exists>g'. updateCurrentTile env_own 1 game_reentry = Inr g' \<and>
      events g' = [FillPlayerTrail [Vec2 5 5, Vec2 5 10, Vec2 10 10, Vec2 10 5] 1,
                   UpdateCapturedArea 1, BroadcastPlayerTrail 1 []] \<and>
      trailVertices (heap g' 1) = [])"
  using updateCurrentTile_reentry [of game_reentry 1 env_own]
  by (auto simp: game_reentry_def game_two_def newPlayer_def env_own_def env0_def
        tile_inv_def isGeneratingTrail_def)

subsection \<open>Death at the margin of the arena\<close>

text \<open>
  One tick can make two grid moves. From \<open>game_start\<close> the first move takes the player
  onto its own trail at (2,1), where it is marked dead with the type \<open>self\<close>; the loop
  goes on and calls \<open>#currentPositionChanged\<close> in the state \<open>game_crossed\<close>, with the
  player at (2,0).
\<close>

lemma moved: "update_player 1
                 (\<lambda>p. p\<lparr>currentPosition := moveOne (currentDirection p) (currentPosition p)\<rparr>) 
          (update_player 1 (\<lambda>p. p\<lparr>nextTileProgress := nextTileProgress p - 1\<rparr>) game_start) = game_moved"
  by (simp add: game_start_def game_moved_def game_one_def newPlayer_def update_player_def moveOne_def)

lemma bounds_moved: "updateTrailBounds 1 game_moved = game_moved"
  by (simp add: game_moved_def game_one_def newPlayer_def update_player_def updateTrailBounds_def isGeneratingTrail_def Let_def)

lemma area_moved: "checkAreaBounds env0 1 game_moved = game_moved"
  by (simp add: checkAreaBounds_eq out_of_bounds_def game_moved_def game_one_def env0_def)

lemma over_moved: "getOverlappingTrailBoundsPlayers game_moved (Vec2 2 1) = [1]"
  by (simp add: getOverlappingTrailBoundsPlayers_def pointIsInTrailBounds_def game_moved_def game_one_def)

lemma pos_moved: "currentPosition (heap game_moved 1) = Vec2 2 1"
  by (simp add: game_moved_def)

lemma hit_moved: "hit env0 game_moved 1 1"
  by (simp add: hit_def pointIsInTrail_def isGeneratingTrail_def game_moved_def env0_def)


lemma hitPlayers_moved:
  "hitPlayers env0 1 [1] game_moved
     = Inr (emit (BroadcastHitLineAnimation 1 1) (die DT_self True 1 game_moved))"
  using hit_moved by (simp add: hitPlayers_Cons hitStep_def)

lemma chunks_none:
  assumes "currentPosition (heap g 1) = Vec2 2 1"
    and "lastEdgeChunkSendX (heap g 1) = 2" and "lastEdgeChunkSendY (heap g 1) = 2"
  shows "sendRequiredEdgeChunks env0 1 g = g"
  using assms by (simp add: sendRequiredEdgeChunks_def env0_def Let_def update_player_def)

lemma tile_same:
  assumes "currentTileType (heap g 1) = 0"
  shows "updateCurrentTile env0 1 g = Inr g"
  using assms by (simp add: updateCurrentTile_def env0_def)

lemma after_fields:
  "currentPosition (heap (emit (BroadcastHitLineAnimation 1 1) (die DT_self True 1 game_moved)) 1) = Vec2 2 1"
  "lastEdgeChunkSendX (heap (emit (BroadcastHitLineAnimation 1 1) (die DT_self True 1 game_moved)) 1) = 2"
  "lastEdgeChunkSendY (heap (emit (BroadcastHitLineAnimation 1 1) (die DT_self True 1 game_moved)) 1) = 2"
  "currentTileType (heap (emit (BroadcastHitLineAnimation 1 1) (die DT_self True 1 game_moved)) 1) = 0"
  "currentDirection (heap (emit (BroadcastHitLineAnimation 1 1) (die DT_self True 1 game_moved)) 1) = Up"
  "nextTileProgress (heap (emit (BroadcastHitLineAnimation 1 1) (die DT_self True 1 game_moved)) 1) = 14 / 10"
  "lastDeathState (heap (emit (BroadcastHitLineAnimation 1 1) (die DT_self True 1 game_moved)) 1)
     = Some \<lparr>dieTime = 0, dtype = DT_self\<rparr>"
  "events (emit (BroadcastHitLineAnimation 1 1) (die DT_self True 1 game_moved))
     = [BroadcastPlayerDeath 1 True, BroadcastHitLineAnimation 1 1]"
  by (simp_all add: heap_die events_die game_moved_def game_one_def newPlayer_def)

lemma first_move_hits_own_trail:
  "gridMove env0 1 game_start
     = Inr (emit (BroadcastHitLineAnimation 1 1) (die DT_self True 1 game_moved))"
  by (simp add: gridMove_def Let_def moved currentPositionChanged_def bounds_moved area_moved
        pos_moved over_moved hitPlayers_moved chunks_none [OF after_fields(1,2,3)]
        tile_same [OF after_fields(4)] del: One_nat_def)


lemma second_move_state:
  "1 < nextTileProgress (heap (emit (BroadcastHitLineAnimation 1 1) (die DT_self True 1 game_moved)) 1) \<and>
   update_player 1
     (\<lambda>p. p\<lparr>currentPosition := moveOne (currentDirection p) (currentPosition p)\<rparr>)
     (update_player 1 (\<lambda>p. p\<lparr>nextTileProgress := nextTileProgress p - 1\<rparr>)
        (emit (BroadcastHitLineAnimation 1 1) (die DT_self True 1 game_moved)))
     = game_crossed"
  by (simp add: game_crossed_def game_moved_def game_one_def newPlayer_def update_player_def
        moveOne_def emit_def die_def performance_now_def)

lemma moveLoop_two_moves:
  "moveLoop env0 1 game_start =
     (case currentPositionChanged env0 1 game_crossed of
        Inl e \<Rightarrow> Inl e
      | Inr g3 \<Rightarrow> (case updateCurrentTile env0 1 g3 of
                     Inl e \<Rightarrow> Inl e | Inr g4 \<Rightarrow> moveLoop env0 1 g4))"
proof -
  let ?g1 = "emit (BroadcastHitLineAnimation 1 1) (die DT_self True 1 game_moved)"
  have "1 < nextTileProgress (heap game_start 1)"
    by (simp add: game_start_def)
  then have "moveLoop env0 1 game_start = moveLoop env0 1 ?g1"
    by (simp add: moveLoop.simps [of env0 1 game_start] first_move_hits_own_trail del: One_nat_def)
  also have "\<dots> = (case gridMove env0 1 ?g1 of Inl e \<Rightarrow> Inl e | Inr g' \<Rightarrow> moveLoop env0 1 g')"
    using second_move_state by (simp add: moveLoop.simps [of env0 1 ?g1] del: One_nat_def)
  also have "gridMove env0 1 ?g1 =
      (case currentPositionChanged env0 1 game_crossed of
         Inl e \<Rightarrow> Inl e | Inr g3 \<Rightarrow> updateCurrentTile env0 1 g3)"
    using second_move_state by (simp add: gridMove_def Let_def del: One_nat_def)
  finally show ?thesis
    by (simp split: sum.splits)
qed

text \<open>
  C5 (as stated, refuted). In \<open>game_crossed\<close> the new position (2,0) is on the margin of
  the arena, and the player is marked dead already: after the move its death type is still
  \<open>self\<close>, not \<open>area-bounds\<close>, and no death broadcast for it was made.
\<close>

theorem area_bounds_dead_counterexample:
  "out_of_bounds env0 game_crossed 1 \<and>
   death_type_of (heap (state_of (currentPositionChanged env0 1 game_crossed)) 1) = Some DT_self \<and>
   death_events 1 (new_events game_crossed (state_of (currentPositionChanged env0 1 game_crossed))) = []"
proof -
  have dead1: "lastDeathState (heap game_crossed 1) = Some \<lparr>dieTime = 0, dtype = DT_self\<rparr>"
    by (simp add: game_crossed_def)
  obtain g' where "currentPositionChanged env0 1 game_crossed = Inr g'"
    and "lastDeathState (heap g' 1) = lastDeathState (heap game_crossed 1)"
    and "death_events 1 (new_events game_crossed g') = []"
    using currentPositionChanged_dead [of game_crossed 1 env0 1] dead1 by auto
  moreover have "out_of_bounds env0 game_crossed 1"
    by (simp add: out_of_bounds_def game_crossed_def)
  ultimately show ?thesis
    using dead1 by (simp add: death_type_of_def)
qed

text \<open>
  C5 (amended). When the new position is on the margin of the arena,
  \<open>#currentPositionChanged\<close> returns, and: a player that was not marked dead is now marked
  dead with the type \<open>area-bounds\<close> and the time of the clock, and exactly one death
  broadcast for it was made, with the position revealed; a player that was marked dead
  already keeps its death state, and no death broadcast for it is made.
\<close>

theorem area_bounds_death:
  assumes "out_of_bounds E g this"
  shows "\<exists>g'. currentPositionChanged E this g = Inr g' \<and>
           (lastDeathState (heap g this) = None \<longrightarrow>
              lastDeathState (heap g' this)
                = Some \<lparr>dieTime = clock g (reads g), dtype = DT_area_bounds\<rparr> \<and>
              death_events this (new_events g g') = [BroadcastPlayerDeath this True]) \<and>
           (lastDeathState (heap g this) \<noteq> None \<longrightarrow>
              lastDeathState (heap g' this) = lastDeathState (heap g this) \<and>
              death_events this (new_events g g') = [])"
proof -
  let ?g1 = "updateTrailBounds this g"
  let ?g2 = "checkAreaBounds E this ?g1"
  let ?a = "if lastDeathState (heap g this) \<noteq> None then [] else [BroadcastPlayerDeath this True]"
  obtain g3 where
    h: "hitPlayers E this (getOverlappingTrailBoundsPlayers ?g2 (currentPosition (heap g this))) ?g2 = Inr g3"
    and r: "currentPositionChanged E this g = Inr (sendRequiredEdgeChunks E this g3)"
    by (rule currentPositionChanged_stages)
  have g2: "?g2 = die DT_area_bounds True this ?g1"
    using assms by (simp add: checkAreaBounds_eq)
  have ev2: "events ?g2 = events g @ ?a"
    by (simp add: g2 events_die)
  have dead2: "lastDeathState (heap ?g2 this) \<noteq> None"
    by (simp add: g2 heap_die)
  have ds2: "lastDeathState (heap ?g2 this) =
      (if lastDeathState (heap g this) \<noteq> None then lastDeathState (heap g this)
       else Some \<lparr>dieTime = clock g (reads g), dtype = DT_area_bounds\<rparr>)"
    by (simp add: g2 heap_die)
  from hitPlayers_dead [OF h dead2]
  have h3: "heap g3 this = heap ?g2 this" "death_events this (new_events ?g2 g3) = []"
    by simp_all
  obtain c where c: "events (sendRequiredEdgeChunks E this g3) = events g3 @ c"
    "death_events this c = []"
    using events_sendRequiredEdgeChunks by blast
  have ne: "new_events g (sendRequiredEdgeChunks E this g3) = ?a @ new_events ?g2 g3 @ c"
    using h ev2 c(1) by (rule new_events_stages)
  have "death_events this ?a = ?a"
    by (simp add: death_events_def)
  then have "death_events this (new_events g (sendRequiredEdgeChunks E this g3)) = ?a"
    by (simp add: ne h3 c(2))
  moreover have "lastDeathState (heap (sendRequiredEdgeChunks E this g3) this)
      = lastDeathState (heap ?g2 this)"
    by (simp add: h3)
  ultimately show ?thesis
    using r ds2 by auto
qed

theorem area_bounds_death_witness:
  "out_of_bounds env0 game_edge 1 \<and> lastDeathState (heap game_edge 1) = None \<and>
   (\<exists>g'. currentPositionChanged env0 1 game_edge = Inr g' \<and>
      lastDeathState (heap g' 1) = Some \<lparr>dieTime = 0, dtype = DT_area_bounds\<rparr> \<and>
      death_events 1 (new_events game_edge g') = [BroadcastPlayerDeath 1 True]) \<and>
   out_of_bounds env0 game_crossed 1 \<and> lastDeathState (heap game_crossed 1) \<noteq> None \<and>
   (\<exists>g'. currentPositionChanged env0 1 game_crossed = Inr g' \<and>
      lastDeathState (heap g' 1) = Some \<lparr>dieTime = 0, dtype = DT_self\<rparr> \<and>
      death_events 1 (new_events game_crossed g') = [])"
proof -
  have o: "out_of_bounds env0 game_edge 1" "out_of_bounds env0 game_crossed 1"
    by (simp_all add: out_of_bounds_def game_edge_def game_crossed_def)
  have l: "lastDeathState (heap game_edge 1) = None"
    "lastDeathState (heap game_crossed 1) = Some \<lparr>dieTime = 0, dtype = DT_self\<rparr>"
    "clock game_edge (reads game_edge) = 0"
    by (simp_all add: game_edge_def game_crossed_def game_one_def newPlayer_def)
  show ?thesis
    using area_bounds_death [OF o(1)] area_bounds_death [OF o(2)] o l
    by auto
qed

subsection \<open>Death on a trail\<close>

text \<open>
  C4 (as stated, refuted). Player 2 is marked dead with the type \<open>self\<close>; its trail
  bounds contain the new position (15,12) of player 1, which lies on its trail. After the
  move of player 1 the death type of player 2 is still \<open>self\<close>, not \<open>player\<close>, and no
  death broadcast for player 2 was made.
\<close>

theorem trail_hit_dead_counterexample:
  "distinct (members game_hit_dead) \<and> 2 \<in> set (members game_hit_dead) \<and> (2::nat) \<noteq> 1 \<and>
   pointIsInTrailBounds (heap (updateTrailBounds 1 game_hit_dead) 2)
     (currentPosition (heap game_hit_dead 1)) \<and>
   hit env0 game_hit_dead 1 2 \<and>
   death_type_of (heap (state_of (currentPositionChanged env0 1 game_hit_dead)) 2) = Some DT_self \<and>
   death_type_of (heap (state_of (currentPositionChanged env0 1 game_hit_dead)) 2) \<noteq> Some DT_player \<and>
   death_events 2 (new_events game_hit_dead (state_of (currentPositionChanged env0 1 game_hit_dead))) = []"
proof -
  have dead2: "lastDeathState (heap game_hit_dead 2) = Some \<lparr>dieTime = 0, dtype = DT_self\<rparr>"
    by (simp add: game_hit_dead_def)
  obtain g' where "currentPositionChanged env0 1 game_hit_dead = Inr g'"
    and "lastDeathState (heap g' 2) = lastDeathState (heap game_hit_dead 2)"
    and "death_events 2 (new_events game_hit_dead g') = []"
    using currentPositionChanged_dead [of game_hit_dead 2 env0 1] dead2 by auto
  then have "death_type_of (heap (state_of (currentPositionChanged env0 1 game_hit_dead)) 2) = Some DT_self"
    and "death_events 2 (new_events game_hit_dead (state_of (currentPositionChanged env0 1 game_hit_dead))) = []"
    by (simp_all add: dead2 death_type_of_def)
  moreover have "distinct (members game_hit_dead) \<and> 2 \<in> set (members game_hit_dead)"
    by (simp add: game_hit_dead_def game_hit_alive_def game_two_def)
  moreover have "pointIsInTrailBounds (heap (updateTrailBounds 1 game_hit_dead) 2)
     (currentPosition (heap game_hit_dead 1))"
    by (simp add: game_hit_dead_def game_hit_alive_def game_two_def updateTrailBounds_def
          pointIsInTrailBounds_def Let_def)
  moreover have "hit env0 game_hit_dead 1 2"
    by (simp add: hit_def pointIsInTrail_def isGeneratingTrail_def game_hit_dead_def
          game_hit_alive_def game_two_def env0_def)
  ultimately show ?thesis by simp
qed

text \<open>
  C4 (amended). The players of the game are distinct. For a player q of the game whose
  trail bounds contain the new position of the mover and whose trail contains it (without
  the last segment when q is the mover): \<open>#currentPositionChanged\<close> returns, and exactly
  one hit-line announcement for q and the mover was made. If q was not marked dead, and is
  not the mover on the margin of the arena, q is now marked dead with the type \<open>self\<close>
  when it is the mover and \<open>player\<close> otherwise, and exactly one death broadcast for q was
  made, revealing the position exactly when q is the mover. If q was marked dead already,
  its death state is unchanged and no death broadcast for it is made.
\<close>

theorem trail_hit_death:
  assumes "distinct (members g)" and "q \<in> set (members g)"
    and "pointIsInTrailBounds (heap (updateTrailBounds this g) q) (currentPosition (heap g this))"
    and "hit E g this q"
  shows "\<exists>g'. currentPositionChanged E this g = Inr g' \<and>
           hit_lines q this (new_events g g') = [BroadcastHitLineAnimation q this] \<and>
           (lastDeathState (heap g q) = None \<and> \<not> (q = this \<and> out_of_bounds E g this) \<longrightarrow>
              death_type_of (heap g' q) = Some (if q = this then DT_self else DT_player) \<and>
              death_events q (new_events g g') = [BroadcastPlayerDeath q (q = this)]) \<and>
           (lastDeathState (heap g q) \<noteq> None \<longrightarrow>
              lastDeathState (heap g' q) = lastDeathState (heap g q) \<and>
              death_events q (new_events g g') = [])"
proof -
  let ?g1 = "updateTrailBounds this g"
  let ?g2 = "checkAreaBounds E this ?g1"
  let ?pos = "currentPosition (heap g this)"
  let ?rs = "getOverlappingTrailBoundsPlayers ?g2 ?pos"
  obtain g3 where h: "hitPlayers E this ?rs ?g2 = Inr g3"
    and r: "currentPositionChanged E this g = Inr (sendRequiredEdgeChunks E this g3)"
    by (rule currentPositionChanged_stages)
  let ?g' = "sendRequiredEdgeChunks E this g3"
  have sbd: "same_but_death ?g1 ?g2" by (rule same_but_death_checkAreaBounds)
  have mem: "members ?g2 = members g"
    using sbd by (simp add: same_but_death_def)
  have "pointIsInTrailBounds (heap ?g2 q) ?pos"
    using assms(3) by (simp add: same_but_death_bounds [OF sbd])
  then have q_rs: "q \<in> set ?rs" and d_rs: "distinct ?rs"
    using assms(1,2) by (simp_all add: getOverlappingTrailBoundsPlayers_def mem)
  have hit2: "hit E ?g2 this q"
    using assms(4) by (simp add: same_but_death_hit [OF sbd])
  note H = hitPlayers_hit [OF h d_rs q_rs hit2]
  define a where "a = (if out_of_bounds E g this \<and> lastDeathState (heap g this) = None
                       then [BroadcastPlayerDeath this True] else [])"
  have a: "events ?g2 = events g @ a" "hit_lines q this a = []"
    by (simp_all add: a_def checkAreaBounds_eq events_die hit_lines_def)
  have a3: "death_events q a = []"
    if "q \<noteq> this \<or> \<not> out_of_bounds E g this \<or> lastDeathState (heap g q) \<noteq> None"
    using that by (auto simp: a_def death_events_def)
  obtain c where c: "events ?g' = events g3 @ c" "death_events q c = []" "hit_lines q this c = []"
    using events_sendRequiredEdgeChunks by blast
  have ne: "new_events g ?g' = a @ new_events ?g2 g3 @ c"
    using h a(1) c(1) by (rule new_events_stages)
  have lines: "hit_lines q this (new_events g ?g') = [BroadcastHitLineAnimation q this]"
    using H by (simp add: ne a(2) c(3))
  have alive: "death_type_of (heap ?g' q) = Some (if q = this then DT_self else DT_player) \<and>
      death_events q (new_events g ?g') = [BroadcastPlayerDeath q (q = this)]"
    if live: "lastDeathState (heap g q) = None" and nb: "\<not> (q = this \<and> out_of_bounds E g this)"
  proof -
    have "lastDeathState (heap ?g2 q) = None"
      using live nb by (auto simp: checkAreaBounds_eq heap_die)
    with H have "death_type_of (heap g3 q) = Some (if q = this then DT_self else DT_player)"
      and "death_events q (new_events ?g2 g3) = [BroadcastPlayerDeath q (q = this)]"
      by simp_all
    moreover have "death_events q a = []" using nb by (intro a3) auto
    ultimately show ?thesis
      by (simp add: ne c(2) death_type_of_def)
  qed
  have gone: "lastDeathState (heap ?g' q) = lastDeathState (heap g q) \<and>
      death_events q (new_events g ?g') = []"
    if deadq: "lastDeathState (heap g q) \<noteq> None"
  proof -
    have d2: "heap ?g2 q = heap ?g1 q"
      using deadq by (auto simp: checkAreaBounds_eq heap_die)
    then have "lastDeathState (heap ?g2 q) \<noteq> None" using deadq by simp
    from hitPlayers_dead [OF h this]
    have "heap g3 q = heap ?g2 q" "death_events q (new_events ?g2 g3) = []" by simp_all
    moreover have "death_events q a = []" using deadq by (intro a3) auto
    ultimately show ?thesis
      by (simp add: ne c(2) d2)
  qed
  show ?thesis
    using r lines alive gone by auto
qed

theorem trail_hit_death_witness:
  "distinct (members game_hit_alive) \<and> 2 \<in> set (members game_hit_alive) \<and>
   pointIsInTrailBounds (heap (updateTrailBounds 1 game_hit_alive) 2)
     (currentPosition (heap game_hit_alive 1)) \<and>
   hit env0 game_hit_alive 1 2 \<and> lastDeathState (heap game_hit_alive 2) = None \<and>
   (\<exists>g'. currentPositionChanged env0 1 game_hit_alive = Inr g' \<and>
      hit_lines 2 1 (new_events game_hit_alive g') = [BroadcastHitLineAnimation 2 1] \<and>
      death_type_of (heap g' 2) = Some DT_player \<and>
      death_events 2 (new_events game_hit_alive g') = [BroadcastPlayerDeath 2 False]) \<and>
   hit env0 game_hit_dead 1 2 \<and> lastDeathState (heap game_hit_dead 2) \<noteq> None \<and>
   (\<exists>g'. currentPositionChanged env0 1 game_hit_dead = Inr g' \<and>
      hit_lines 2 1 (new_events game_hit_dead g') = [BroadcastHitLineAnimation 2 1] \<and>
      death_events 2 (new_events game_hit_dead g') = []) \<and>
   hit env0 game_moved 1 1 \<and> lastDeathState (heap game_moved 1) = None \<and>
   \<not> out_of_bounds env0 game_moved 1 \<and>
   (\<exists>g'. currentPositionChanged env0 1 game_moved = Inr g' \<and>
      hit_lines 1 1 (new_events game_moved g') = [BroadcastHitLineAnimation 1 1] \<and>
      death_type_of (heap g' 1) = Some DT_self \<and>
      death_events 1 (new_events game_moved g') = [BroadcastPlayerDeath 1 True])"
proof -
  have m: "distinct (members game_hit_alive)" "2 \<in> set (members game_hit_alive)"
    "distinct (members game_hit_dead)" "2 \<in> set (members game_hit_dead)"
    by (simp_all add: game_hit_dead_def game_hit_alive_def game_two_def)
  have b: "pointIsInTrailBounds (heap (updateTrailBounds 1 game_hit_alive) 2)
     (currentPosition (heap game_hit_alive 1))"
    "pointIsInTrailBounds (heap (updateTrailBounds 1 game_hit_dead) 2)
     (currentPosition (heap game_hit_dead 1))"
    by (simp_all add: game_hit_dead_def game_hit_alive_def game_two_def updateTrailBounds_def
          pointIsInTrailBounds_def Let_def)
  have h: "hit env0 game_hit_alive 1 2" "hit env0 game_hit_dead 1 2"
    by (simp_all add: hit_def pointIsInTrail_def isGeneratingTrail_def game_hit_dead_def
          game_hit_alive_def game_two_def env0_def)
  have l: "lastDeathState (heap game_hit_alive 2) = None"
    "lastDeathState (heap game_hit_dead 2) \<noteq> None"
    by (simp_all add: game_hit_dead_def game_hit_alive_def game_two_def newPlayer_def)
  have s: "distinct (members game_moved)" "1 \<in> set (members game_moved)"
    "lastDeathState (heap game_moved 1) = None" "\<not> out_of_bounds env0 game_moved 1"
    by (simp_all add: game_moved_def game_one_def newPlayer_def out_of_bounds_def env0_def)
  have sb: "pointIsInTrailBounds (heap (updateTrailBounds 1 game_moved) 1)
       (currentPosition (heap game_moved 1))"
    unfolding bounds_moved by (simp add: game_moved_def pointIsInTrailBounds_def)
  show ?thesis
    using trail_hit_death [OF m(1) m(2) b(1) h(1)] trail_hit_death [OF m(3) m(4) b(2) h(2)]
      trail_hit_death [OF s(1) s(2) sb hit_moved] m b h l s hit_moved
    by auto
qed

subsection \<open>Trail bounds\<close>

text \<open>
  What the update of the bounds in \<open>#currentPositionChanged\<close> does: for a player that is
  not generating a trail the bounds become the box of the position alone; for one that is,
  they grow to take the position in and lose no point.
\<close>

lemma updateTrailBounds_encloses:
  "(\<not> isGeneratingTrail (heap g this) \<longrightarrow>
      trailBounds (heap (updateTrailBounds this g) this)
        = Rect (currentPosition (heap g this)) (currentPosition (heap g this))) \<and>
   pointIsInTrailBounds (heap (updateTrailBounds this g) this) (currentPosition (heap g this)) \<and>
   (isGeneratingTrail (heap g this) \<and> pointIsInTrailBounds (heap g this) pt \<longrightarrow>
      pointIsInTrailBounds (heap (updateTrailBounds this g) this) pt)"
  by (auto simp: updateTrailBounds_def pointIsInTrailBounds_def Let_def)

lemma drain_turn:
  "clientPosUpdateRequested Right (Vec2 5 2) 1 game_trail =
     emit (BroadcastPlayerState 1 (Vec2 5 2) Right)
       (update_player 1 (\<lambda>p. p\<lparr>currentPosition := Vec2 5 2,
           trailVertices := [Vec2 5 8, Vec2 5 2], currentDirection := Right\<rparr>) game_trail)"
  by (simp add: clientPosUpdateRequested_def drainMovementQueue.simps acceptMove_def Let_def
        game_trail_def game_one_def newPlayer_def checkNextMoveValidity_def
        isGeneratingTrail_def update_player_def emit_def)

text \<open>
  C7 (failing input). Player 1 is generating the trail (5,8), stands at (5,5) moving up,
  and its bounds are the box from (5,5) to (5,8). The client asks for a turn to the right
  at (5,2); the intent is accepted, the position becomes (5,2) and the vertex (5,2) is
  added to the trail. A tick with \<open>dt = 0\<close> follows, which returns the state as it is:
  the player is generating, and its bounds are still the box from (5,5) to (5,8), which
  contains neither the vertex (5,2) nor the current position.
\<close>

theorem trailBounds_stale_after_turn:
  "loop env0 0 0 1 (clientPosUpdateRequested Right (Vec2 5 2) 1 game_trail)
     = Inr (clientPosUpdateRequested Right (Vec2 5 2) 1 game_trail) \<and>
   isGeneratingTrail (heap (clientPosUpdateRequested Right (Vec2 5 2) 1 game_trail) 1) \<and>
   trailVertices (heap (clientPosUpdateRequested Right (Vec2 5 2) 1 game_trail) 1)
     = [Vec2 5 8, Vec2 5 2] \<and>
   currentPosition (heap (clientPosUpdateRequested Right (Vec2 5 2) 1 game_trail) 1) = Vec2 5 2 \<and>
   trailBounds (heap (clientPosUpdateRequested Right (Vec2 5 2) 1 game_trail) 1)
     = Rect (Vec2 5 5) (Vec2 5 8) \<and>
   \<not> pointIsInTrailBounds (heap (clientPosUpdateRequested Right (Vec2 5 2) 1 game_trail) 1) (Vec2 5 2)"
  unfolding drain_turn
  by (simp add: loop_def dead_def moveLoop.simps deathTimers_def game_trail_def game_one_def
        newPlayer_def isGeneratingTrail_def pointIsInTrailBounds_def update_player_def emit_def)

theorem trailBounds_stale_after_turn_witness:
  "\<not> pointIsInTrailBounds
       (heap (state_of (loop env0 0 0 1 (clientPosUpdateRequested Right (Vec2 5 2) 1 game_trail))) 1)
       (Vec2 5 2)"
  using trailBounds_stale_after_turn by simp

end
